theory Spec2Isabelle
  imports Complex_Main "HOL-Library.Sublist" "HOL-Library.Multiset"
begin

section \<open>JavaScript values used by \<open>lib/ai.ts\<close>\<close>

text \<open>
  The module under study is the second document of \<open>src/lib/db.ts\<close> (its own header names
  it \<open>lib/ai.ts\<close>): \<open>validatePrompt\<close>, \<open>generateRoadmap\<close>, \<open>createFallbackNodes\<close> and
  \<open>calculateNodePosition\<close>.

  Strings. A JavaScript string is a sequence of UTF-16 code units. The model uses
  \<^typ>\<open>string\<close>, whose characters are the code units \<open>0 .. 255\<close>: it covers exactly the
  strings of the Latin-1 range, on which \<open>length\<close>, \<open>toLowerCase\<close>, \<open>trim\<close>, \<open>includes\<close>
  and the regular expressions \<open>\d\<close> and \<open>\s\<close> are modelled as ECMAScript defines them.
\<close>

subsection \<open>Characters and strings\<close>

definition lower_char :: "char \<Rightarrow> char" where
  \<comment> \<open>Unicode simple lower-casing on U+0000 .. U+00FF: \<open>A-Z\<close> and U+00C0 .. U+00DE
      (without the multiplication sign U+00D7) move up by 32, all else is fixed.\<close>
  "lower_char c =
     (let n = (of_char c :: nat)
      in if (65 \<le> n \<and> n \<le> 90) \<or> (192 \<le> n \<and> n \<le> 222 \<and> n \<noteq> 215)
         then char_of (n + 32) else c)"

definition toLowerCase :: "string \<Rightarrow> string" where
  "toLowerCase s = map lower_char s"

definition isWhiteSpace :: "char \<Rightarrow> bool" where
  \<comment> \<open>ECMAScript WhiteSpace and LineTerminator below U+0100: TAB, LF, VT, FF, CR, SP, NBSP.
      The same set is what \<open>trim\<close> strips and what \<open>\s\<close> matches.\<close>
  "isWhiteSpace c = (c \<in> set [CHR 0x09, CHR 0x0A, CHR 0x0B, CHR 0x0C, CHR 0x0D, CHR 0x20, CHR 0xA0])"

definition trim :: "string \<Rightarrow> string" where
  "trim s = rev (dropWhile isWhiteSpace (rev (dropWhile isWhiteSpace s)))"

fun str_includes :: "string \<Rightarrow> string \<Rightarrow> bool" where
  \<comment> \<open>\<open>s.includes(k)\<close>: \<open>k\<close> occurs in \<open>s\<close> at some position.\<close>
  "str_includes [] k = (k = [])"
| "str_includes (c # s) k = (prefix k (c # s) \<or> str_includes s k)"

definition isDigit :: "char \<Rightarrow> bool" where
  \<comment> \<open>The regular expression class \<open>\d\<close>: \<open>0-9\<close> only.\<close>
  "isDigit c = (c \<in> set ''0123456789'')"

function decimal :: "nat \<Rightarrow> string" where
  \<comment> \<open>Number-to-string conversion of a non-negative integer, as a template literal
      \<open>${index + 1}\<close> performs it.\<close>
  "decimal n = (if n < 10 then [''0123456789'' ! n]
                else decimal (n div 10) @ [''0123456789'' ! (n mod 10)])"
  by pat_completeness auto
termination
  by (relation "measure id") auto

declare decimal.simps [simp del]

subsection \<open>Thrown values\<close>

text \<open>
  The module throws \<open>new Error(message)\<close>; the runtime throws \<open>TypeError\<close>s (a property read
  on \<open>null\<close>, a call of something that is no function) and \<open>JSON.parse\<close> a \<open>SyntaxError\<close>;
  axios rejects with an error that carries \<open>response.status\<close> when the service answered
  with a status outside \<open>2xx\<close>. The catch block of \<open>generateRoadmap\<close> reads exactly two
  things of a caught value: \<open>error.message\<close> and \<open>error.response?.status\<close>.
\<close>

datatype js_error =
    Error string
  | TypeError string
  | AxiosError string "nat option"

fun message :: "js_error \<Rightarrow> string" where
  "message (Error m) = m"
| "message (TypeError m) = m"
| "message (AxiosError m s) = m"

fun response_status :: "js_error \<Rightarrow> nat option" where
  "response_status (AxiosError m s) = s"
| "response_status (Error m) = None"
| "response_status (TypeError m) = None"

section \<open>The prompt validator\<close>

definition invalidKeywords :: "string list" where
  "invalidKeywords =
     [''weather'', ''score'', ''news'', ''today'', ''current'', ''calculate'',
      ''what is'', ''who is'', ''where is'', ''when is'', ''why is'', ''how to fix'',
      ''debug'', ''error'', ''problem'']"

definition validatePrompt :: "string \<Rightarrow> js_error + bool" where
  "validatePrompt prompt =
     (let lowerCasePrompt = trim (toLowerCase prompt)
      in if length lowerCasePrompt < 3
         then Inl (Error ''Please enter a longer topic description.'')
         else if length lowerCasePrompt > 200
         then Inl (Error ''Please enter a shorter topic description.'')
         else (case find (\<lambda>keyword. str_includes lowerCasePrompt keyword) invalidKeywords of
                 Some matchedKeyword \<Rightarrow>
                   if matchedKeyword \<noteq> []
                   then Inl (Error ''Please enter a topic you want to learn about, rather than a question or problem.'')
                   else Inr True
               | None \<Rightarrow> Inr True))"

section \<open>JSON values and the runtime\<close>

text \<open>
  A value delivered by \<open>JSON.parse\<close>. A number carries the exact value of the IEEE double
  that \<open>JSON.parse\<close> produced, which is a rational (literals beyond the double range,
  which parse to an infinity, are outside the model; \<open>-0\<close> and \<open>0\<close> are one value, the
  module never distinguishes them). An object is the list of its own properties.
\<close>

datatype json =
    JNull
  | JBool bool
  | JNumber rat
  | JString string
  | JArray "json list"
  | JObject "(string \<times> json) list"

fun property :: "json \<Rightarrow> string \<Rightarrow> json option" where
  \<comment> \<open>\<open>v.k\<close> for a value \<open>v\<close> that is not \<open>null\<close> and one of the names this module reads
      (\<open>nodes\<close>, \<open>id\<close>, \<open>title\<close>, \<open>description\<close>, \<open>children\<close>, \<open>sequence\<close>, \<open>timeNeeded\<close>,
      \<open>choices\<close>, \<open>message\<close>, \<open>content\<close>): none of them is a property of a number, a boolean,
      a string, an array or of \<open>Object.prototype\<close>. \<open>None\<close> is \<open>undefined\<close>.\<close>
  "property (JObject kvs) k = map_of kvs k"
| "property v k = None"

fun truthy :: "json \<Rightarrow> bool" where
  "truthy JNull = False"
| "truthy (JBool b) = b"
| "truthy (JNumber q) = (q \<noteq> 0)"
| "truthy (JString s) = (s \<noteq> [])"
| "truthy (JArray xs) = True"
| "truthy (JObject kvs) = True"

definition or_else :: "json option \<Rightarrow> json \<Rightarrow> json" where
  \<comment> \<open>\<open>v || d\<close> for a property read \<open>v\<close>.\<close>
  "or_else v d = (case v of Some x \<Rightarrow> if truthy x then x else d | None \<Rightarrow> d)"

fun strictEquals :: "json \<Rightarrow> json \<Rightarrow> bool" where
  \<comment> \<open>\<open>a === b\<close> for two values at different places of one parsed response: primitives
      compare by value, arrays and objects by identity, and two places never hold the
      same array or object.\<close>
  "strictEquals JNull JNull = True"
| "strictEquals (JBool a) (JBool b) = (a = b)"
| "strictEquals (JNumber a) (JNumber b) = (a = b)"
| "strictEquals (JString a) (JString b) = (a = b)"
| "strictEquals a b = False"

text \<open>
  What the model does not compute itself. \<open>JSON.parse\<close> returns the parsed value or throws
  a \<open>SyntaxError\<close> (\<open>Inl\<close> its message). \<open>Number_toString\<close> is the number-to-string
  conversion, consulted only outside the integers up to \<open>2^53\<close>, where it is the plain
  decimal numeral. \<open>Math_random\<close> gives the \<open>k\<close>-th draw of \<open>Math.random()\<close>. \<open>Math.log2\<close>
  and \<open>Math.pow\<close> are implementation-approximated in ECMAScript: the language fixes a few
  of their values (\<open>Math.log2(1) = +0\<close>, \<open>Math.pow(b, 0) = 1\<close>) and leaves the accuracy of
  the others to the engine.
\<close>

record runtime =
  JSON_parse :: "string \<Rightarrow> string + json"
  Number_toString :: "rat \<Rightarrow> string"
  Math_random :: "nat \<Rightarrow> rat"
  Math_log2 :: "rat \<Rightarrow> rat"
  Math_pow :: "rat \<Rightarrow> rat \<Rightarrow> rat"

definition number_string :: "runtime \<Rightarrow> rat \<Rightarrow> string" where
  \<comment> \<open>\<open>${q}\<close> in a template literal.\<close>
  "number_string R q =
     (if of_int \<lfloor>q\<rfloor> = q \<and> \<bar>q\<bar> \<le> 2 ^ 53
      then (if q < 0 then ''-'' @ decimal (nat \<lfloor>- q\<rfloor>) else decimal (nat \<lfloor>q\<rfloor>))
      else Number_toString R q)"

section \<open>Double arithmetic\<close>

text \<open>
  A JavaScript number is an IEEE 754 double. The model carries a finite double as the
  rational it denotes, and every arithmetic operation as the exact operation followed
  by the rounding to the nearest double, ties to even, as IEEE 754 and ECMAScript
  prescribe for \<open>+\<close>, \<open>-\<close>, \<open>*\<close> and \<open>/\<close>. Infinities and NaN are outside the model: an
  overflow needs a magnitude of \<open>2^1024\<close>, and the one division of the module whose
  divisor can vanish has a positive divisor whenever \<open>index < total\<close>.
\<close>

function bits :: "nat \<Rightarrow> nat" where
  \<comment> \<open>The number of binary digits of \<open>n\<close>.\<close>
  "bits n = (if n = 0 then 0 else Suc (bits (n div 2)))"
  by pat_completeness auto
termination
  by (relation "measure id") auto

declare bits.simps [simp del]

definition floor_log2 :: "rat \<Rightarrow> int" where
  \<comment> \<open>For \<open>q > 0\<close> the exponent \<open>e\<close> with \<open>2^e \<le> q < 2^(e+1)\<close>.\<close>
  "floor_log2 q =
     (if 1 \<le> q then int (bits (nat \<lfloor>q\<rfloor>)) - 1
      else - int (bits (nat (\<lceil>1 / q\<rceil> - 1))))"

definition round_half_even :: "rat \<Rightarrow> int" where
  "round_half_even q =
     (let f = \<lfloor>q\<rfloor>; d = q - of_int f
      in if d < 1 / 2 then f
         else if 1 / 2 < d then f + 1
         else if even f then f else f + 1)"

definition round_double :: "rat \<Rightarrow> rat" where
  \<comment> \<open>The nearest double: 53 significant bits, the exponent of the least bit not below
      \<open>-1074\<close> (subnormal numbers), ties to even.\<close>
  "round_double q =
     (if q = 0 then 0
      else let e = max (floor_log2 \<bar>q\<bar>) (- 1022);
               ulp = 2 powi (e - 52)
           in of_int (round_half_even (q / ulp)) * ulp)"

definition fadd :: "rat \<Rightarrow> rat \<Rightarrow> rat" where
  "fadd a b = round_double (a + b)"

definition fsub :: "rat \<Rightarrow> rat \<Rightarrow> rat" where
  "fsub a b = round_double (a - b)"

definition fmul :: "rat \<Rightarrow> rat \<Rightarrow> rat" where
  "fmul a b = round_double (a * b)"

definition fdiv :: "rat \<Rightarrow> rat \<Rightarrow> rat" where
  "fdiv a b = round_double (a / b)"

section \<open>The layout function\<close>

definition calculateNodePosition :: "runtime \<Rightarrow> nat \<Rightarrow> nat \<Rightarrow> rat \<times> rat" where
  \<comment> \<open>The result \<open>{x, y}\<close> is the pair \<open>(x, y)\<close>. \<open>Math.floor\<close> and \<open>Math.min\<close> are exact;
      \<open>total'\<close> is the parameter \<open>total\<close>.\<close>
  "calculateNodePosition R index total' =
     (let VERTICAL_SPACING = 100;
          MIN_NODE_SPACING = 140;
          TOP_MARGIN = 50;
          LEVEL_PADDING = 50;
          level = of_int \<lfloor>Math_log2 R (fadd (of_nat index) 1)\<rfloor>;
          positionInLevel = fsub (of_nat index) (fsub (Math_pow R 2 level) 1);
          nodesInLevel = min (Math_pow R 2 level)
                             (fsub (of_nat total') (fsub (Math_pow R 2 level) 1));
          baseWidth = fmul MIN_NODE_SPACING (Math_pow R 2 level);
          xSpacing = fdiv baseWidth (fadd nodesInLevel 1);
          x = fsub (fmul (fadd positionInLevel 1) xSpacing) (fdiv baseWidth 2);
          x' = (if 0 < level
                then (let isRightSubtree = (fdiv nodesInLevel 2 \<le> positionInLevel);
                          spreadFactor = Math_pow R (3 / 2) level
                      in fadd x (if isRightSubtree then fmul LEVEL_PADDING spreadFactor
                                 else fmul (- LEVEL_PADDING) spreadFactor))
                else x);
          y = fadd (fmul level VERTICAL_SPACING) TOP_MARGIN
      in (x', y))"

section \<open>Response repair\<close>

text \<open>
  The TypeScript type \<open>RoadmapNode\<close> declares \<open>id\<close> and the entries of \<open>description\<close> and
  \<open>children\<close> as strings, but the values come unchecked out of the parsed response
  (\<open>node: any\<close>), so the record keeps them as JSON values. Only \<open>title\<close> is known to be a
  string: the \<open>try\<close> block throws on any other title.
\<close>

record RoadmapNode =
  node_id :: json
  title :: string
  description :: "json list"
  children :: "json list"
  sequence :: rat
  timeNeeded :: rat
  completed :: bool
  timeConsumed :: rat
  position :: "rat \<times> rat"

definition braceSpan :: "string \<Rightarrow> string option" where
  \<comment> \<open>\<open>text.match(/\{[\s\S]*\}/)\<close>: from the first \<open>{\<close> to the last \<open>}\<close> behind it.\<close>
  "braceSpan text =
     (let fromOpen = dropWhile (\<lambda>c. c \<noteq> CHR ''{'') text;
          backToClose = dropWhile (\<lambda>c. c \<noteq> CHR ''}'') (rev fromOpen)
      in if backToClose = [] then None else Some (rev backToClose))"

definition parseResponse :: "runtime \<Rightarrow> string \<Rightarrow> js_error + json" where
  "parseResponse R text =
     (case JSON_parse R text of
        Inr parsedResponse \<Rightarrow> Inr parsedResponse
      | Inl e \<Rightarrow>
          (case braceSpan text of
             Some extractedJson \<Rightarrow>
               (case JSON_parse R extractedJson of
                  Inr parsedResponse \<Rightarrow> Inr parsedResponse
                | Inl extractError \<Rightarrow> Inl (Error (''Failed to parse JSON response: '' @ e)))
           | None \<Rightarrow> Inl (Error (''Failed to parse JSON response: '' @ e))))"

definition nodesOf :: "json \<Rightarrow> js_error + json list" where
  \<comment> \<open>The two checks behind "Ensure we have a nodes array".\<close>
  "nodesOf parsedResponse =
     (if truthy parsedResponse
      then (case property parsedResponse ''nodes'' of
              Some (JArray roadmap) \<Rightarrow>
                if roadmap = [] then Inl (Error ''Received empty nodes array from AI service'')
                else Inr roadmap
            | _ \<Rightarrow> Inl (Error ''Invalid response format: missing nodes array''))
      else Inl (Error ''Invalid response format: missing nodes array''))"

definition hasNumericPrefix :: "string \<Rightarrow> bool" where
  \<comment> \<open>\<open>title.match(/^\d+\./)\<close>\<close>
  "hasNumericPrefix t =
     (takeWhile isDigit t \<noteq> [] \<and>
      (case dropWhile isDigit t of [] \<Rightarrow> False | c # rest \<Rightarrow> c = CHR ''.''))"

definition stripNumericPrefix :: "string \<Rightarrow> string" where
  \<comment> \<open>\<open>title.replace(/^\d+\.\s*/, '')\<close>\<close>
  "stripNumericPrefix t =
     (if hasNumericPrefix t then dropWhile isWhiteSpace (tl (dropWhile isDigit t)) else t)"

fun rawHasId :: "json list \<Rightarrow> json \<Rightarrow> js_error + bool" where
  \<comment> \<open>\<open>roadmap.some(n => n.id === childId)\<close>, from the left; reading \<open>id\<close> of \<open>null\<close> throws.\<close>
  "rawHasId [] childId = Inr False"
| "rawHasId (n # ns) childId =
     (if n = JNull then Inl (TypeError ''Cannot read properties of null (reading 'id')'')
      else (case property n ''id'' of
              Some v \<Rightarrow> if strictEquals v childId then Inr True else rawHasId ns childId
            | None \<Rightarrow> rawHasId ns childId))"

fun filterChildren :: "json list \<Rightarrow> json list \<Rightarrow> js_error + json list" where
  \<comment> \<open>\<open>children.filter(childId => roadmap.some(...))\<close>\<close>
  "filterChildren roadmap [] = Inr []"
| "filterChildren roadmap (childId # rest) =
     (case rawHasId roadmap childId of
        Inl e \<Rightarrow> Inl e
      | Inr keep \<Rightarrow>
          (case filterChildren roadmap rest of
             Inl e \<Rightarrow> Inl e
           | Inr kept \<Rightarrow> Inr (if keep then childId # kept else kept)))"

definition tryProcessNode ::
  "runtime \<Rightarrow> json list \<Rightarrow> nat \<Rightarrow> json \<Rightarrow> js_error + RoadmapNode" where
  \<comment> \<open>The \<open>try\<close> block of the callback given to \<open>roadmap.map\<close>.\<close>
  "tryProcessNode R roadmap index node =
     (if node = JNull then Inl (TypeError ''Cannot read properties of null (reading 'id')'')
      else
        let id0 = or_else (property node ''id'') (JString (''node_'' @ decimal (index + 1)));
            title0 = or_else (property node ''title'') (JString (decimal (index + 1) @ ''. Untitled Node''));
            description0 = (case property node ''description'' of Some (JArray xs) \<Rightarrow> xs | _ \<Rightarrow> []);
            children0 = (case property node ''children'' of Some (JArray xs) \<Rightarrow> xs | _ \<Rightarrow> []);
            sequence0 = (case property node ''sequence'' of Some (JNumber q) \<Rightarrow> q | _ \<Rightarrow> of_nat (index + 1));
            timeNeeded0 = (case property node ''timeNeeded'' of Some (JNumber q) \<Rightarrow> q | _ \<Rightarrow> 0);
            position0 = calculateNodePosition R index (length roadmap)
        in (case title0 of
              JString t \<Rightarrow>
                (let title1 = (if hasNumericPrefix t then t
                               else number_string R sequence0 @ ''. '' @ stripNumericPrefix t);
                     description1 = (if description0 = [] then [JString ''No description available'']
                                     else description0)
                 in (case filterChildren roadmap children0 of
                       Inl e \<Rightarrow> Inl e
                     | Inr children1 \<Rightarrow>
                         Inr \<lparr>node_id = id0, title = title1, description = description1,
                              children = children1, sequence = sequence0,
                              timeNeeded = timeNeeded0, completed = False, timeConsumed = 0,
                              position = position0\<rparr>))
            | _ \<Rightarrow> Inl (TypeError ''processedNode.title.match is not a function'')))"

definition defaultNode :: "runtime \<Rightarrow> json list \<Rightarrow> nat \<Rightarrow> RoadmapNode" where
  \<comment> \<open>The node the \<open>catch\<close> block of the callback returns.\<close>
  "defaultNode R roadmap index =
     \<lparr>node_id = JString (''node_'' @ decimal (index + 1)),
      title = decimal (index + 1) @ ''. Topic '' @ decimal (index + 1),
      description = [JString ''Content to be added''],
      children = [],
      sequence = of_nat (index + 1),
      timeNeeded = 1,
      completed = False,
      timeConsumed = 0,
      position = calculateNodePosition R index (length roadmap)\<rparr>"

definition processNode :: "runtime \<Rightarrow> json list \<Rightarrow> nat \<Rightarrow> json \<Rightarrow> RoadmapNode" where
  "processNode R roadmap index node =
     (case tryProcessNode R roadmap index node of
        Inr processedNode \<Rightarrow> processedNode
      | Inl e \<Rightarrow> defaultNode R roadmap index)"

fun mapNodes :: "runtime \<Rightarrow> json list \<Rightarrow> nat \<Rightarrow> json list \<Rightarrow> RoadmapNode list" where
  \<comment> \<open>\<open>roadmap.map((node, index) => ...)\<close>, with the index of the next element.\<close>
  "mapNodes R roadmap index [] = []"
| "mapNodes R roadmap index (node # rest) =
     processNode R roadmap index node # mapNodes R roadmap (Suc index) rest"

fun restamp :: "nat \<Rightarrow> RoadmapNode list \<Rightarrow> RoadmapNode list" where
  \<comment> \<open>The \<open>forEach\<close> after the sort.\<close>
  "restamp index [] = []"
| "restamp index (node # rest) =
     node\<lparr>sequence := of_nat (index + 1),
          title := decimal (index + 1) @ ''. '' @ stripNumericPrefix (title node)\<rparr>
       # restamp (Suc index) rest"

definition repairNodes :: "runtime \<Rightarrow> json list \<Rightarrow> RoadmapNode list" where
  \<comment> \<open>\<open>Array.prototype.sort\<close> is stable, and the comparator \<open>a.sequence - b.sequence\<close> has
      the sign of the order of the two numbers.\<close>
  "repairNodes R roadmap = restamp 0 (sort_key sequence (mapNodes R roadmap 0 roadmap))"

definition repair :: "runtime \<Rightarrow> string \<Rightarrow> js_error + RoadmapNode list" where
  \<comment> \<open>Lines 204 to 295 of the module: from the raw text to the returned list.\<close>
  "repair R text =
     (case parseResponse R text of
        Inl e \<Rightarrow> Inl e
      | Inr parsedResponse \<Rightarrow>
          (case nodesOf parsedResponse of
             Inl e \<Rightarrow> Inl e
           | Inr roadmap \<Rightarrow> Inr (repairNodes R roadmap)))"

section \<open>The fallback generator\<close>

fun splitOn :: "char \<Rightarrow> string \<Rightarrow> string list" where
  \<comment> \<open>\<open>s.split(sep)\<close> for a separator of one character.\<close>
  "splitOn sep [] = [[]]"
| "splitOn sep (c # s) =
     (if c = sep then [] # splitOn sep s
      else (case splitOn sep s of [] \<Rightarrow> [[c]] | piece # pieces \<Rightarrow> (c # piece) # pieces))"

fun str_less :: "string \<Rightarrow> string \<Rightarrow> bool" where
  \<comment> \<open>\<open>a < b\<close> on two strings: the order of the code units, the shorter first.\<close>
  "str_less [] [] = False"
| "str_less [] (b # bs) = True"
| "str_less (a # as) [] = False"
| "str_less (a # as) (b # bs) =
     ((of_char a :: nat) < of_char b \<or> (a = b \<and> str_less as bs))"

definition str_le :: "string \<Rightarrow> string \<Rightarrow> bool" where
  \<comment> \<open>\<open>a <= b\<close> on two strings.\<close>
  "str_le a b = (\<not> str_less b a)"

definition withinCount :: "nat \<Rightarrow> string \<Rightarrow> bool" where
  \<comment> \<open>\<open>n => n.split('_')[1] <= nodeCount.toString()\<close>: both sides are strings; a
      missing second piece is \<open>undefined\<close>, which compares false.\<close>
  "withinCount nodeCount n =
     (case splitOn (CHR ''_'') n of
        first # second # pieces \<Rightarrow> str_le second (decimal nodeCount)
      | _ \<Rightarrow> False)"

definition nodeCountOf :: "string \<Rightarrow> nat" where
  "nodeCountOf level =
     (if level = ''beginner'' then 8 else if level = ''intermediate'' then 12 else 15)"

definition fallbackNode :: "runtime \<Rightarrow> string \<Rightarrow> nat \<Rightarrow> nat \<Rightarrow> RoadmapNode" where
  \<comment> \<open>The body of the loop of \<open>createFallbackNodes\<close> at \<open>i\<close>, which takes the \<open>i\<close>-th
      draw.\<close>
  "fallbackNode R prompt nodeCount i =
     \<lparr>node_id = JString (''node_'' @ decimal (i + 1)),
      title = decimal (i + 1) @ ''. '' @ prompt @ '' Topic '' @ decimal (i + 1),
      description =
        [JString (''Learn the basics of '' @ prompt @ '' concept '' @ decimal (i + 1)),
         JString ''Key areas: Theory, Practice, Application'',
         JString (''Complete exercises related to '' @ prompt @ '' topic '' @ decimal (i + 1))],
      children =
        (if i < nodeCount - 2
         then map JString
                (filter (withinCount nodeCount)
                   [''node_'' @ decimal (i + 2), ''node_'' @ decimal (i + 3)])
         else []),
      sequence = of_nat (i + 1),
      timeNeeded = fadd (of_int \<lfloor>fmul (Math_random R i) 5\<rfloor>) 1,
      completed = False,
      timeConsumed = 0,
      position = calculateNodePosition R i nodeCount\<rparr>"

definition createFallbackNodes :: "runtime \<Rightarrow> string \<Rightarrow> string \<Rightarrow> RoadmapNode list" where
  "createFallbackNodes R prompt level =
     (let nodeCount = nodeCountOf level
      in map (fallbackNode R prompt nodeCount) [0..<nodeCount])"

section \<open>The roadmap generator\<close>

datatype level = Beginner | Intermediate | Advanced

fun level_name :: "level \<Rightarrow> string" where
  "level_name Beginner = ''beginner''"
| "level_name Intermediate = ''intermediate''"
| "level_name Advanced = ''advanced''"

datatype roadmapType = WeekByWeek | TopicWise

record env =
  GROQ_API_KEY :: "string option"
  NODE_ENV :: "string option"

text \<open>
  The request sent to the chat-completion endpoint. Its body and headers are constant
  but for the prompt and the level (both inside the user message) and the key (the
  \<open>Authorization\<close> header); \<open>roadmapType\<close> is logged only. The service is a function from
  the request to what \<open>axios.post\<close> does: it resolves with \<open>response.data\<close> or rejects.
\<close>

record request =
  authorization :: string
  topic :: string
  topic_level :: level

type_synonym service = "request \<Rightarrow> js_error + json"

definition opt_property :: "json option \<Rightarrow> string \<Rightarrow> json option" where
  \<comment> \<open>\<open>v?.k\<close>\<close>
  "opt_property v k = (case v of None \<Rightarrow> None | Some x \<Rightarrow> if x = JNull then None else property x k)"

definition opt_first :: "json option \<Rightarrow> json option" where
  \<comment> \<open>\<open>v?.[0]\<close>\<close>
  "opt_first v =
     (case v of
        Some (JArray xs) \<Rightarrow> (case xs of [] \<Rightarrow> None | x # rest \<Rightarrow> Some x)
      | Some (JString s) \<Rightarrow> (case s of [] \<Rightarrow> None | c # rest \<Rightarrow> Some (JString [c]))
      | Some (JObject kvs) \<Rightarrow> map_of kvs ''0''
      | _ \<Rightarrow> None)"

definition responseText :: "json \<Rightarrow> js_error + string" where
  \<comment> \<open>From \<open>response.data\<close> to \<open>text\<close>: the check of
      \<open>response.data?.choices?.[0]?.message?.content\<close> and the call of \<open>trim\<close> on it.\<close>
  "responseText data =
     (case opt_property (opt_property (opt_first (opt_property (Some data) ''choices'')) ''message'') ''content'' of
        None \<Rightarrow> Inl (Error ''Invalid response from Groq API'')
      | Some content \<Rightarrow>
          if truthy content
          then (case content of
                  JString s \<Rightarrow> Inr (trim s)
                | _ \<Rightarrow> Inl (TypeError ''response.data.choices[0].message.content.trim is not a function''))
          else Inl (Error ''Invalid response from Groq API''))"

definition handleError ::
  "runtime \<Rightarrow> env \<Rightarrow> string \<Rightarrow> level \<Rightarrow> js_error \<Rightarrow> js_error + RoadmapNode list" where
  \<comment> \<open>The \<open>catch (error)\<close> block of \<open>generateRoadmap\<close>.\<close>
  "handleError R e prompt level error =
     (let errorMessage = (if message error \<noteq> [] then message error else ''Failed to generate roadmap'')
      in if response_status error = Some 400
         then (if NODE_ENV e = Some ''development''
               then Inr (createFallbackNodes R prompt (level_name level))
               else Inl (Error ''The AI service couldn't process this request. Please try again with different parameters.''))
         else Inl (Error
                (if response_status error = Some 401 then ''Authentication failed''
                 else if response_status error = Some 429 then ''Too many requests. Please try again later.''
                 else errorMessage)))"

definition generateRoadmap ::
  "runtime \<Rightarrow> env \<Rightarrow> service \<Rightarrow> string \<Rightarrow> level \<Rightarrow> roadmapType
     \<Rightarrow> request list \<times> (js_error + RoadmapNode list)" where
  \<comment> \<open>The first component lists the requests sent to the service, in order.\<close>
  "generateRoadmap R e svc prompt level roadmapType =
     (case validatePrompt prompt of
        Inl error \<Rightarrow> ([], handleError R e prompt level error)
      | Inr valid \<Rightarrow>
          (case GROQ_API_KEY e of
             None \<Rightarrow>
               ([], handleError R e prompt level
                      (Error ''GROQ_API_KEY is not configured in environment variables''))
           | Some key \<Rightarrow>
               if key = []
               then ([], handleError R e prompt level
                           (Error ''GROQ_API_KEY is not configured in environment variables''))
               else
                 (let req = \<lparr>authorization = ''Bearer '' @ key, topic = prompt, topic_level = level\<rparr>
                  in (case svc req of
                        Inl error \<Rightarrow> ([req], handleError R e prompt level error)
                      | Inr data \<Rightarrow>
                          (case responseText data of
                             Inl error \<Rightarrow> ([req], handleError R e prompt level error)
                           | Inr text \<Rightarrow>
                               (case repair R text of
                                  Inl error \<Rightarrow> ([req], handleError R e prompt level error)
                                | Inr processedNodes \<Rightarrow> ([req], Inr processedNodes)))))))"

section \<open>Example inputs\<close>

text \<open>
  A runtime for the examples. Its \<open>JSON.parse\<close> knows the documents below and rejects
  every other text; its draws cycle through the doubles nearest to \<open>0.1, 0.3, 0.5, 0.7,
  0.9\<close>; its \<open>Number_toString\<close> is never consulted by the examples (their numbers are small
  integers). Its \<open>Math.pow\<close> is the correctly rounded power for an integer exponent. Its
  \<open>Math.log2\<close> is exact at the powers of two and has the floor of the logarithm
  everywhere (between two powers it interpolates linearly, which no example depends on).
\<close>

definition single_node_text :: string where
  "single_node_text = ''{\"nodes\":[{\"id\":\"node_1\"}]}''"

definition single_node_value :: json where
  "single_node_value = JObject [(''nodes'', JArray [JObject [(''id'', JString ''node_1'')]])]"

definition prose_text :: string where
  "prose_text = ''Here you go: {\"nodes\":[{\"id\":\"a\",\"title\":\"Intro\",\"sequence\":5},{\"id\":\"b\",\"title\":\"3. Next\",\"sequence\":5},{\"id\":\"c\",\"sequence\":2}]} Thanks!''"

definition prose_json :: string where
  "prose_json = ''{\"nodes\":[{\"id\":\"a\",\"title\":\"Intro\",\"sequence\":5},{\"id\":\"b\",\"title\":\"3. Next\",\"sequence\":5},{\"id\":\"c\",\"sequence\":2}]}''"

definition prose_nodes :: "json list" where
  "prose_nodes =
     [JObject [(''id'', JString ''a''), (''title'', JString ''Intro''), (''sequence'', JNumber 5)],
      JObject [(''id'', JString ''b''), (''title'', JString ''3. Next''), (''sequence'', JNumber 5)],
      JObject [(''id'', JString ''c''), (''sequence'', JNumber 2)]]"

definition dangling_text :: string where
  "dangling_text = ''{\"nodes\":[{\"id\":\"intro\",\"title\":7},{\"id\":\"next\",\"title\":\"Next\",\"children\":[\"intro\"]}]}''"

definition dangling_nodes :: "json list" where
  "dangling_nodes =
     [JObject [(''id'', JString ''intro''), (''title'', JNumber 7)],
      JObject [(''id'', JString ''next''), (''title'', JString ''Next''),
               (''children'', JArray [JString ''intro''])]]"

definition example_documents :: "(string \<times> json) list" where
  "example_documents =
     [(single_node_text, single_node_value),
      (prose_json, JObject [(''nodes'', JArray prose_nodes)]),
      (dangling_text, JObject [(''nodes'', JArray dangling_nodes)]),
      (''[]'', JArray []),
      (''{\"nodes\":[]}'', JObject [(''nodes'', JArray [])])]"

definition example_parse :: "string \<Rightarrow> string + json" where
  "example_parse text =
     (case map_of example_documents text of
        Some v \<Rightarrow> Inr v
      | None \<Rightarrow> Inl ''Unexpected token'')"

definition example_log2 :: "rat \<Rightarrow> rat" where
  "example_log2 q =
     (if q \<le> 0 then 0
      else round_double (of_int (floor_log2 q) + (q / 2 powi floor_log2 q - 1)))"

definition example_pow :: "rat \<Rightarrow> rat \<Rightarrow> rat" where
  "example_pow b e = round_double (b powi \<lfloor>e\<rfloor>)"

definition example_runtime :: runtime where
  "example_runtime =
     \<lparr>JSON_parse = example_parse,
      Number_toString = (\<lambda>q. []),
      Math_random = (\<lambda>k. round_double (of_nat (2 * (k mod 5) + 1) / 10)),
      Math_log2 = example_log2,
      Math_pow = example_pow\<rparr>"

section \<open>Properties of the prompt validator\<close>

lemma str_includes_sublist: "str_includes s k \<longleftrightarrow> sublist k s"
  by (induction s) (auto simp: sublist_Cons_right)

lemma invalidKeywords_nonempty: "k \<in> set invalidKeywords \<Longrightarrow> k \<noteq> []"
  by (auto simp: invalidKeywords_def)

lemma find_invalidKeyword:
  "find (\<lambda>keyword. str_includes s keyword) invalidKeywords = None
     \<longleftrightarrow> (\<forall>k \<in> set invalidKeywords. \<not> sublist k s)"
  by (auto simp: find_None_iff str_includes_sublist)

lemma dropWhile_keeps_occurrence:
  assumes "k \<noteq> []" and "\<not> P (hd k)"
  shows "\<exists>ps'. dropWhile P (ps @ k @ ss) = ps' @ k @ ss"
proof (induction ps)
  case Nil
  from assms have "dropWhile P (k @ ss) = k @ ss"
    by (cases k) auto
  then show ?case by auto
next
  case (Cons c ps)
  show ?case
  proof (cases "P c")
    case True
    with Cons show ?thesis by simp
  next
    case False
    then have "dropWhile P ((c # ps) @ k @ ss) = (c # ps) @ k @ ss" by simp
    then show ?thesis by blast
  qed
qed

lemma sublist_trim:
  assumes "k \<noteq> []" and "\<not> isWhiteSpace (hd k)" and "\<not> isWhiteSpace (last k)"
    and "sublist k s"
  shows "sublist k (trim s)"
proof -
  from assms(4) obtain ps ss where "s = ps @ k @ ss"
    by (auto simp: sublist_def)
  with dropWhile_keeps_occurrence [of k isWhiteSpace ps ss] assms(1,2)
  obtain ps' where left: "dropWhile isWhiteSpace s = ps' @ k @ ss"
    by auto
  from assms(1,3) have "rev k \<noteq> []" "\<not> isWhiteSpace (hd (rev k))"
    by (simp_all add: hd_rev)
  with dropWhile_keeps_occurrence [of "rev k" isWhiteSpace "rev ss" "rev ps'"]
  obtain ss' where "dropWhile isWhiteSpace (rev ss @ rev k @ rev ps') = ss' @ rev k @ rev ps'"
    by auto
  with left have "trim s = ps' @ k @ rev ss'"
    by (simp add: trim_def)
  then show ?thesis
    by (auto simp: sublist_def)
qed

lemma invalidKeywords_shape:
  assumes "k \<in> set invalidKeywords"
  shows "k \<noteq> [] \<and> \<not> isWhiteSpace (hd k) \<and> \<not> isWhiteSpace (last k)"
  using assms by (auto simp: invalidKeywords_def isWhiteSpace_def)

lemma keyword_survives_trim:
  "k \<in> set invalidKeywords \<Longrightarrow> sublist k s \<Longrightarrow> sublist k (trim s)"
  using invalidKeywords_shape [of k] by (simp add: sublist_trim)

text \<open>
  C5. The validator returns \<open>true\<close> exactly on the prompts whose lower-cased, trimmed form
  has between 3 and 200 characters and contains no blocklisted keyword as a substring;
  on every other prompt (that form shorter than 3, longer than 200, or containing a
  keyword such as \<open>today\<close> or \<open>debug\<close>) it throws an \<open>Error\<close>. A keyword anywhere in the
  lower-cased prompt is one in its trimmed form, so such a prompt is rejected.
\<close>

theorem validatePrompt_accepts_exactly_well_formed:
  fixes prompt :: string
  defines "s \<equiv> trim (toLowerCase prompt)"
  shows "(3 \<le> length s \<and> length s \<le> 200 \<and> (\<forall>k \<in> set invalidKeywords. \<not> sublist k s)
            \<longrightarrow> validatePrompt prompt = Inr True)
       \<and> (length s < 3 \<or> 200 < length s \<or> (\<exists>k \<in> set invalidKeywords. sublist k s)
            \<longrightarrow> (\<exists>m. validatePrompt prompt = Inl (Error m)))
       \<and> ((\<exists>k \<in> set invalidKeywords. sublist k (toLowerCase prompt))
            \<longrightarrow> (\<exists>m. validatePrompt prompt = Inl (Error m)))"
proof -
  have accepted: "validatePrompt prompt = Inr True"
    if ok: "3 \<le> length s \<and> length s \<le> 200 \<and> (\<forall>k \<in> set invalidKeywords. \<not> sublist k s)"
  proof -
    from ok have "find (\<lambda>keyword. str_includes s keyword) invalidKeywords = None"
      by (simp add: find_invalidKeyword)
    with ok show ?thesis
      by (simp add: validatePrompt_def s_def Let_def)
  qed
  have rejected: "\<exists>m. validatePrompt prompt = Inl (Error m)"
    if bad: "length s < 3 \<or> 200 < length s \<or> (\<exists>k \<in> set invalidKeywords. sublist k s)"
  proof (cases "length s < 3 \<or> 200 < length s")
    case True
    then show ?thesis
      by (auto simp: validatePrompt_def s_def Let_def)
  next
    case False
    with bad have "\<exists>k \<in> set invalidKeywords. sublist k s" by blast
    then have "find (\<lambda>keyword. str_includes s keyword) invalidKeywords \<noteq> None"
      by (simp add: find_invalidKeyword)
    then obtain k where k: "find (\<lambda>keyword. str_includes s keyword) invalidKeywords = Some k"
      by blast
    then have "k \<in> set invalidKeywords"
      by (auto simp: find_Some_iff)
    then have "k \<noteq> []" by (rule invalidKeywords_nonempty)
    with False k show ?thesis
      by (simp add: validatePrompt_def s_def Let_def)
  qed
  have anywhere: "\<exists>m. validatePrompt prompt = Inl (Error m)"
    if "\<exists>k \<in> set invalidKeywords. sublist k (toLowerCase prompt)"
  proof -
    from that have "\<exists>k \<in> set invalidKeywords. sublist k s"
      unfolding s_def by (blast intro: keyword_survives_trim)
    then show ?thesis by (blast intro: rejected)
  qed
  from accepted rejected anywhere show ?thesis by blast
qed

theorem validatePrompt_accepts_exactly_well_formed_witness:
  "validatePrompt ''Python'' = Inr True
   \<and> (\<exists>m. validatePrompt ''  Debug my code today '' = Inl (Error m))
   \<and> (\<exists>m. validatePrompt ''What is Rust'' = Inl (Error m))"
proof -
  have e1: "trim (toLowerCase ''Python'') = ''python''"
    by code_simp
  have e2: "trim (toLowerCase ''  Debug my code today '') = ''debug my code today''"
    by code_simp
  have e3: "toLowerCase ''What is Rust'' = ''what is rust''"
    by code_simp
  have ok: "3 \<le> length (trim (toLowerCase ''Python''))
      \<and> length (trim (toLowerCase ''Python'')) \<le> 200
      \<and> (\<forall>k \<in> set invalidKeywords. \<not> sublist k (trim (toLowerCase ''Python'')))"
    unfolding e1 str_includes_sublist [symmetric] invalidKeywords_def by simp
  have debug: "''debug'' \<in> set invalidKeywords" and what: "''what is'' \<in> set invalidKeywords"
    by (simp_all add: invalidKeywords_def)
  have "sublist ''debug'' (trim (toLowerCase ''  Debug my code today ''))"
    unfolding e2 str_includes_sublist [symmetric] by simp
  with debug have bad: "length (trim (toLowerCase ''  Debug my code today '')) < 3
      \<or> 200 < length (trim (toLowerCase ''  Debug my code today ''))
      \<or> (\<exists>k \<in> set invalidKeywords. sublist k (trim (toLowerCase ''  Debug my code today '')))"
    by blast
  have "sublist ''what is'' (toLowerCase ''What is Rust'')"
    unfolding e3 str_includes_sublist [symmetric] by simp
  with what have anywhere: "\<exists>k \<in> set invalidKeywords. sublist k (toLowerCase ''What is Rust'')"
    by blast
  from validatePrompt_accepts_exactly_well_formed [of "''Python''"] ok
       validatePrompt_accepts_exactly_well_formed [of "''  Debug my code today ''"] bad
       validatePrompt_accepts_exactly_well_formed [of "''What is Rust''"] anywhere
  show ?thesis by blast
qed

section \<open>Properties of double arithmetic\<close>

text \<open>
  The exponent found by \<open>floor_log2\<close> is the binade of its argument, a number with at most
  53 significant bits (and an exponent in range) is rounded to itself, and rounding
  keeps a product of a draw below 1 with 5 below 5.
\<close>

lemma bits_pos: "0 < n \<Longrightarrow> 0 < bits n"
  by (subst bits.simps) simp

lemma bits_bounds: "0 < n \<Longrightarrow> 2 ^ (bits n - 1) \<le> n \<and> n < 2 ^ bits n"
proof (induction n rule: bits.induct)
  case (1 n)
  show ?case
  proof (cases "n div 2 = 0")
    case True
    with 1(2) have "n = 1" by (cases n) auto
    then show ?thesis by (simp add: bits.simps)
  next
    case False
    with 1 have ih: "2 ^ (bits (n div 2) - 1) \<le> n div 2" "n div 2 < 2 ^ bits (n div 2)"
      by auto
    from 1(2) have b: "bits n = Suc (bits (n div 2))"
      by (subst bits.simps) simp
    from False have "0 < bits (n div 2)"
      by (intro bits_pos) simp
    then have "bits (n div 2) = Suc (bits (n div 2) - 1)"
      by simp
    then have p: "(2::nat) ^ bits (n div 2) = 2 * 2 ^ (bits (n div 2) - 1)"
      by (metis power_Suc)
    have "2 * (n div 2) \<le> n" "n < 2 * (n div 2) + 2" by arith+
    with ih have "2 * 2 ^ (bits (n div 2) - 1) \<le> n" "n < 2 * 2 ^ bits (n div 2)"
      by linarith+
    with b p show ?thesis by simp
  qed
qed

lemma floor_log2_lower:
  assumes "0 < q"
  shows "2 powi floor_log2 q \<le> q"
proof (cases "1 \<le> q")
  case True
  then have n: "0 < nat \<lfloor>q\<rfloor>" by simp
  from bits_bounds [OF n] have "2 ^ (bits (nat \<lfloor>q\<rfloor>) - 1) \<le> nat \<lfloor>q\<rfloor>" by simp
  then have "(of_nat (2 ^ (bits (nat \<lfloor>q\<rfloor>) - 1)) :: rat) \<le> of_nat (nat \<lfloor>q\<rfloor>)"
    by (simp only: of_nat_le_iff)
  also have "\<dots> = of_int \<lfloor>q\<rfloor>" using True by simp
  also have "\<dots> \<le> q" by (rule of_int_floor_le)
  finally have le: "(2::rat) ^ (bits (nat \<lfloor>q\<rfloor>) - 1) \<le> q" by simp
  from bits_pos [OF n] have "int (bits (nat \<lfloor>q\<rfloor>)) - 1 = int (bits (nat \<lfloor>q\<rfloor>) - 1)"
    by simp
  with True have "floor_log2 q = int (bits (nat \<lfloor>q\<rfloor>) - 1)"
    by (simp only: floor_log2_def if_True)
  then have "(2::rat) powi floor_log2 q = 2 ^ (bits (nat \<lfloor>q\<rfloor>) - 1)"
    by (simp only: power_int_of_nat)
  with le show ?thesis by simp
next
  case False
  define k where "k = bits (nat (\<lceil>1 / q\<rceil> - 1))"
  from False assms have "1 < 1 / q" by simp
  then have c: "1 < \<lceil>1 / q\<rceil>" by (simp only: less_ceiling_iff of_int_1)
  then have n: "0 < nat (\<lceil>1 / q\<rceil> - 1)" by simp
  from bits_bounds [OF n] have "nat (\<lceil>1 / q\<rceil> - 1) < 2 ^ k" by (simp add: k_def)
  then have "\<lceil>1 / q\<rceil> - 1 < 2 ^ k" using c by (simp add: nat_less_iff)
  then have "\<lceil>1 / q\<rceil> \<le> 2 ^ k" by simp
  then have "1 / q \<le> of_int (2 ^ k)"
    by (simp only: ceiling_le_iff)
  then have "1 / q \<le> 2 ^ k" by simp
  with assms have "1 \<le> 2 ^ k * q"
    by (simp only: pos_divide_le_eq)
  moreover have "(0::rat) < 2 ^ k" by simp
  ultimately have "1 / 2 ^ k \<le> q"
    by (simp only: pos_divide_le_eq mult.commute)
  moreover from False have "floor_log2 q = - int k"
    by (simp only: floor_log2_def if_False k_def)
  then have "(2::rat) powi floor_log2 q = 1 / 2 ^ k"
    by (simp add: power_int_minus inverse_eq_divide)
  ultimately show ?thesis by simp
qed

lemma round_half_even_int: "round_half_even (of_int z) = z"
  by (simp add: round_half_even_def)

lemma power_int_less_cancel:
  assumes "(2::rat) powi a < 2 powi b"
  shows "a < b"
proof (rule ccontr)
  assume "\<not> a < b"
  then have "b \<le> a" by simp
  then have "(2::rat) powi b \<le> 2 powi a"
    by (intro power_int_increasing) simp_all
  with assms show False by simp
qed

lemma round_double_exact:
  assumes m: "\<bar>m\<bar> < 2 ^ 53" and j: "- 1074 \<le> j"
  shows "round_double (of_int m * 2 powi j) = of_int m * 2 powi j"
proof (cases "m = 0")
  case True
  then show ?thesis by (simp add: round_double_def)
next
  case False
  define q :: rat where "q = of_int m * 2 powi j"
  define ee where "ee = max (floor_log2 \<bar>q\<bar>) (- 1022) - 52"
  from False have q0: "q \<noteq> 0" by (simp add: q_def)
  then have "0 < \<bar>q\<bar>" by simp
  from floor_log2_lower [OF this] have "2 powi floor_log2 \<bar>q\<bar> \<le> \<bar>q\<bar>" .
  also have "\<bar>q\<bar> = of_int \<bar>m\<bar> * 2 powi j"
    by (simp add: q_def abs_mult)
  also have "\<dots> < 2 ^ 53 * 2 powi j"
  proof -
    from m have "(of_int \<bar>m\<bar> :: rat) < of_int (2 ^ 53)" by (simp only: of_int_less_iff)
    then have "(of_int \<bar>m\<bar> :: rat) < 2 ^ 53" by simp
    moreover have "(0::rat) < 2 powi j" by simp
    ultimately show ?thesis by (rule mult_strict_right_mono)
  qed
  also have "\<dots> = 2 powi 53 * 2 powi j"
    by simp
  also have "\<dots> = 2 powi (53 + j)"
    by (simp only: power_int_add [symmetric, of "2::rat", simplified])
  finally have "(2::rat) powi floor_log2 \<bar>q\<bar> < 2 powi (53 + j)" .
  then have "floor_log2 \<bar>q\<bar> < 53 + j"
    by (rule power_int_less_cancel)
  with j have E: "ee \<le> j" by (simp add: ee_def)
  define d where "d = nat (j - ee)"
  from E have jd: "j = ee + int d" by (simp add: d_def)
  have "(2::rat) powi (ee + int d) = 2 powi ee * 2 powi int d"
    by (rule power_int_add) simp
  then have split: "(2::rat) powi j = 2 powi ee * 2 ^ d"
    by (simp only: jd [symmetric] power_int_of_nat)
  have "q / 2 powi ee = of_int m * 2 ^ d"
    by (simp add: q_def split)
  also have "\<dots> = of_int (m * 2 ^ d)" by simp
  finally have "round_half_even (q / 2 powi ee) = m * 2 ^ d"
    by (simp only: round_half_even_int)
  with q0 have "round_double q = of_int (m * 2 ^ d) * 2 powi ee"
    by (simp add: round_double_def Let_def ee_def)
  also have "\<dots> = q"
    by (simp add: q_def split)
  finally show ?thesis by (simp only: q_def)
qed

lemma round_double_int: "\<bar>m\<bar> < 2 ^ 53 \<Longrightarrow> round_double (of_int m) = of_int m"
  using round_double_exact [of m 0] by simp

lemma round_double_nat: "n < 2 ^ 53 \<Longrightarrow> round_double (of_nat n) = of_nat n"
  using round_double_int [of "int n"] by simp

lemma round_double_half: "n < 2 ^ 53 \<Longrightarrow> round_double (of_nat n / 2) = of_nat n / 2"
  using round_double_exact [of "int n" "- 1"] by (simp add: power_int_minus inverse_eq_divide)

lemma floor_log2_upper:
  assumes "0 < q"
  shows "q < 2 powi (floor_log2 q + 1)"
proof (cases "1 \<le> q")
  case True
  then have n: "0 < nat \<lfloor>q\<rfloor>" by simp
  from bits_bounds [OF n, THEN conjunct2]
  have "nat \<lfloor>q\<rfloor> + 1 \<le> 2 ^ bits (nat \<lfloor>q\<rfloor>)" by linarith
  then have "(of_nat (nat \<lfloor>q\<rfloor> + 1) :: rat) \<le> of_nat (2 ^ bits (nat \<lfloor>q\<rfloor>))"
    by (simp only: of_nat_le_iff)
  moreover have "(of_nat (nat \<lfloor>q\<rfloor> + 1) :: rat) = of_int \<lfloor>q\<rfloor> + 1"
    using True by simp
  moreover have "q < of_int \<lfloor>q\<rfloor> + 1" by linarith
  ultimately have lt: "q < 2 ^ bits (nat \<lfloor>q\<rfloor>)" by simp
  from True have "floor_log2 q + 1 = int (bits (nat \<lfloor>q\<rfloor>))"
    by (simp add: floor_log2_def)
  then have "(2::rat) powi (floor_log2 q + 1) = 2 ^ bits (nat \<lfloor>q\<rfloor>)"
    by (simp only: power_int_of_nat)
  with lt show ?thesis by simp
next
  case False
  define k where "k = bits (nat (\<lceil>1 / q\<rceil> - 1))"
  from False assms have "1 < 1 / q" by simp
  then have c: "1 < \<lceil>1 / q\<rceil>" by (simp only: less_ceiling_iff of_int_1)
  then have n: "0 < nat (\<lceil>1 / q\<rceil> - 1)" by simp
  from bits_pos [OF n] have kpos: "0 < k" by (simp add: k_def)
  from bits_bounds [OF n] have "2 ^ (k - 1) \<le> nat (\<lceil>1 / q\<rceil> - 1)" by (simp add: k_def)
  then have "int (2 ^ (k - 1)) \<le> \<lceil>1 / q\<rceil> - 1" using c by linarith
  then have "(of_int (int (2 ^ (k - 1))) :: rat) \<le> of_int (\<lceil>1 / q\<rceil> - 1)"
    by (simp only: of_int_le_iff)
  moreover have "(of_int (\<lceil>1 / q\<rceil> - 1) :: rat) < 1 / q" by linarith
  ultimately have "(2::rat) ^ (k - 1) < 1 / q" by simp
  with assms have "2 ^ (k - 1) * q < 1"
    by (simp only: pos_less_divide_eq)
  moreover have "(0::rat) < 2 ^ (k - 1)" by simp
  ultimately have lt: "q < 1 / 2 ^ (k - 1)"
    by (simp only: pos_less_divide_eq mult.commute)
  from False have "floor_log2 q + 1 = - int (k - 1)"
    using kpos by (simp add: floor_log2_def k_def [symmetric])
  then have "(2::rat) powi (floor_log2 q + 1) = 1 / 2 ^ (k - 1)"
    by (simp add: power_int_minus inverse_eq_divide)
  with lt show ?thesis by simp
qed

lemma round_half_even_le:
  assumes "q < of_int z + 1 / 2"
  shows "round_half_even q \<le> z"
proof -
  have f: "of_int \<lfloor>q\<rfloor> \<le> q" by (rule of_int_floor_le)
  show ?thesis
  proof (cases "q - of_int \<lfloor>q\<rfloor> < 1 / 2")
    case True
    from f assms have "(of_int \<lfloor>q\<rfloor> :: rat) < of_int z + 1 / 2" by linarith
    moreover have "(of_int (z + 1) :: rat) = of_int z + 1" by simp
    ultimately have "(of_int \<lfloor>q\<rfloor> :: rat) < of_int (z + 1)" by linarith
    then have "\<lfloor>q\<rfloor> < z + 1" by (simp only: of_int_less_iff)
    with True show ?thesis by (simp add: round_half_even_def Let_def)
  next
    case False
    then have "of_int \<lfloor>q\<rfloor> + 1 / 2 \<le> q" by linarith
    with assms have "(of_int \<lfloor>q\<rfloor> :: rat) < of_int z" by linarith
    then have "\<lfloor>q\<rfloor> < z" by (simp only: of_int_less_iff)
    then show ?thesis by (simp add: round_half_even_def Let_def)
  qed
qed

lemma round_half_even_nonneg: "0 \<le> q \<Longrightarrow> 0 \<le> round_half_even q"
  by (simp add: round_half_even_def Let_def)

lemma round_double_nonneg:
  assumes "0 \<le> q"
  shows "0 \<le> round_double q"
proof (cases "q = 0")
  case True
  then show ?thesis by (simp add: round_double_def)
next
  case False
  define u :: rat where "u = 2 powi (max (floor_log2 \<bar>q\<bar>) (- 1022) - 52)"
  have u: "0 < u" by (simp add: u_def)
  with assms have "0 \<le> q / u" by simp
  then have "0 \<le> round_half_even (q / u)" by (rule round_half_even_nonneg)
  then have "(0::rat) \<le> of_int (round_half_even (q / u)) * u"
    using u by simp
  with False show ?thesis by (simp add: round_double_def Let_def u_def)
qed

lemma round_double_le_binade:
  assumes "0 < q"
  shows "round_double q \<le> 2 powi (max (floor_log2 q) (- 1022) + 1)"
proof -
  define ev where "ev = max (floor_log2 q) (- 1022)"
  define u :: rat where "u = 2 powi (ev - 52)"
  have u: "0 < u" by (simp add: u_def)
  have "floor_log2 q + 1 \<le> ev + 1" by (simp add: ev_def)
  then have "(2::rat) powi (floor_log2 q + 1) \<le> 2 powi (ev + 1)"
    by (intro power_int_increasing) simp_all
  with floor_log2_upper [OF assms] have "q < 2 powi (floor_log2 q + 1)"
    and "(2::rat) powi (floor_log2 q + 1) \<le> 2 powi (ev + 1)" by simp_all
  then have "q < 2 powi (ev + 1)" by (rule less_le_trans)
  moreover have split: "(2::rat) powi (ev + 1) = 2 ^ 53 * u"
  proof -
    have "(2::rat) powi (53 + (ev - 52)) = 2 powi 53 * 2 powi (ev - 52)"
      by (rule power_int_add) simp
    moreover have "53 + (ev - 52) = ev + 1" by simp
    ultimately have "(2::rat) powi (ev + 1) = 2 powi 53 * 2 powi (ev - 52)"
      by (simp only:)
    then show ?thesis by (simp add: u_def)
  qed
  ultimately have "q < 2 ^ 53 * u" by (simp only:)
  with u have "q / u < 2 ^ 53"
    by (simp only: pos_divide_less_eq)
  then have "q / u < of_int (2 ^ 53)" by simp
  then have "q / u < of_int (2 ^ 53) + 1 / 2" by linarith
  then have "round_half_even (q / u) \<le> 2 ^ 53" by (rule round_half_even_le)
  then have "(of_int (round_half_even (q / u)) :: rat) \<le> of_int (2 ^ 53)"
    by (simp only: of_int_le_iff)
  then have "of_int (round_half_even (q / u)) * u \<le> of_int (2 ^ 53) * u"
    using u by (intro mult_right_mono) simp_all
  also have "of_int (2 ^ 53) * u = 2 powi (ev + 1)"
    by (simp add: split)
  finally have "of_int (round_half_even (q / u)) * u \<le> 2 powi (ev + 1)" .
  moreover from assms have "round_double q = of_int (round_half_even (q / u)) * u"
    by (simp add: round_double_def Let_def u_def ev_def)
  ultimately show ?thesis by (simp add: ev_def)
qed

lemma floor_log2_eq:
  assumes "2 powi e \<le> q" and "q < 2 powi (e + 1)"
  shows "floor_log2 q = e"
proof -
  have "(0::rat) < 2 powi e" by simp
  then have q: "0 < q" using assms(1) by (rule less_le_trans)
  from floor_log2_lower [OF q] assms(2) have "(2::rat) powi floor_log2 q < 2 powi (e + 1)"
    by simp
  then have "floor_log2 q < e + 1" by (rule power_int_less_cancel)
  moreover from floor_log2_upper [OF q] assms(1) have "(2::rat) powi e < 2 powi (floor_log2 q + 1)"
    by simp
  then have "e < floor_log2 q + 1" by (rule power_int_less_cancel)
  ultimately show ?thesis by simp
qed

lemma round_double_times_5:
  assumes "0 \<le> r" and "r \<le> 1 - 1 / 2 ^ 53"
  shows "0 \<le> \<lfloor>fmul r 5\<rfloor> \<and> \<lfloor>fmul r 5\<rfloor> \<le> 4"
proof -
  define q where "q = r * 5"
  from assms have q: "0 \<le> q" "q \<le> 5 - 5 / 2 ^ 53" by (simp_all add: q_def)
  have lower: "0 \<le> round_double q" using q(1) by (rule round_double_nonneg)
  have upper: "round_double q < 5"
  proof (cases "q < 4")
    case True
    show ?thesis
    proof (cases "q = 0")
      case True
      then show ?thesis by (simp add: round_double_def)
    next
      case False
      with q have pos: "0 < q" by simp
      from floor_log2_lower [OF pos] True have "(2::rat) powi floor_log2 q < 2 powi 2"
        by simp
      then have "floor_log2 q < 2" by (rule power_int_less_cancel)
      then have "max (floor_log2 q) (- 1022) + 1 \<le> 2" by simp
      then have "(2::rat) powi (max (floor_log2 q) (- 1022) + 1) \<le> 2 powi 2"
        by (intro power_int_increasing) simp_all
      with round_double_le_binade [OF pos] have "round_double q \<le> 4" by simp
      then show ?thesis by simp
    qed
  next
    case False
    then have ge: "4 \<le> q" by simp
    from q have lt: "q < 8" by simp
    have e: "floor_log2 q = 2"
      by (rule floor_log2_eq) (use ge lt in simp_all)
    from ge have abs: "\<bar>q\<bar> = q" and q0: "q \<noteq> 0" by simp_all
    have u: "(2::rat) powi (max 2 (- 1022) - 52) = 1 / 2 ^ 50"
      by (simp add: power_int_minus inverse_eq_divide)
    from q(2) have "q * 2 ^ 50 \<le> (5 - 5 / 2 ^ 53) * 2 ^ 50"
      by (intro mult_right_mono) simp_all
    moreover have "(5 - 5 / 2 ^ 53) * 2 ^ 50 < (of_int (5 * 2 ^ 50 - 1) :: rat) + 1 / 2" by simp
    ultimately have "q * 2 ^ 50 < of_int (5 * 2 ^ 50 - 1) + 1 / 2" by (rule le_less_trans)
    then have "round_half_even (q * 2 ^ 50) \<le> 5 * 2 ^ 50 - 1"
      by (rule round_half_even_le)
    then have "(of_int (round_half_even (q * 2 ^ 50)) :: rat) \<le> of_int (5 * 2 ^ 50 - 1)"
      by (simp only: of_int_le_iff)
    then have "of_int (round_half_even (q * 2 ^ 50)) / 2 ^ 50 \<le> (of_int (5 * 2 ^ 50 - 1) :: rat) / 2 ^ 50"
      by (intro divide_right_mono) simp_all
    moreover have "round_double q = of_int (round_half_even (q * 2 ^ 50)) / 2 ^ 50"
      using q0 by (simp add: round_double_def Let_def abs e u)
    ultimately show ?thesis by simp
  qed
  from lower have "0 \<le> \<lfloor>round_double q\<rfloor>" by simp
  moreover from upper have "\<lfloor>round_double q\<rfloor> < 5"
    by (simp add: floor_less_iff)
  ultimately show ?thesis by (simp add: fmul_def q_def)
qed

lemma fadd_nat: "a + b < 2 ^ 53 \<Longrightarrow> fadd (of_nat a) (of_nat b) = of_nat (a + b)"
  using round_double_nat [of "a + b"] by (simp add: fadd_def)

lemma fsub_nat: "b \<le> a \<Longrightarrow> a < 2 ^ 53 \<Longrightarrow> fsub (of_nat a) (of_nat b) = of_nat (a - b)"
  using round_double_nat [of "a - b"] by (simp add: fsub_def)

lemma fmul_nat: "a * b < 2 ^ 53 \<Longrightarrow> fmul (of_nat a) (of_nat b) = of_nat (a * b)"
  using round_double_nat [of "a * b"] by (simp add: fmul_def)

lemma fdiv_nat_2: "a < 2 ^ 53 \<Longrightarrow> fdiv (of_nat a) 2 = of_nat a / 2"
  using round_double_half [of a] by (simp add: fdiv_def)

section \<open>Properties of the layout function\<close>

lemma calculateNodePosition_at_level:
  fixes L :: nat
  assumes lev: "\<lfloor>Math_log2 R (of_nat (index + 1))\<rfloor> = int L"
    and lo: "2 ^ L \<le> index + 1"
    and range: "index < total'" "total' < 2 ^ 32"
    and pow: "Math_pow R 2 (of_nat L) = 2 ^ L"
  shows "calculateNodePosition R index total' =
     (let positionInLevel = index + 1 - 2 ^ L;
          nodesInLevel = min (2 ^ L) (total' + 1 - 2 ^ L);
          baseWidth = 140 * 2 ^ L;
          x = round_double
                (round_double (of_nat (positionInLevel + 1)
                     * round_double (of_nat baseWidth / of_nat (nodesInLevel + 1)))
                 - of_nat baseWidth / 2)
      in (if L = 0 then x
          else round_double
                 (x + round_double ((if nodesInLevel \<le> 2 * positionInLevel then 50 else - 50)
                                      * Math_pow R (3 / 2) (of_nat L))),
          of_nat (L * 100 + 50)))"
proof -
  define P2 :: nat where "P2 = 2 ^ L"
  define p where "p = index + 1 - P2"
  define n where "n = min P2 (total' + 1 - P2)"
  have P2pos: "0 < P2" by (simp add: P2_def)
  from lo have P2le: "P2 \<le> index + 1" by (simp add: P2_def)
  from range have small: "index + 1 < 2 ^ 32" "total' < 2 ^ 32" by simp_all
  have big: "(2::nat) ^ 32 * 140 < 2 ^ 53" by simp
  have L32: "L < 32"
  proof (rule ccontr)
    assume "\<not> L < 32"
    then have "(2::nat) ^ 32 \<le> 2 ^ L" by (intro power_increasing) simp_all
    with P2le small show False by (simp add: P2_def)
  qed
  have i53: "index + 1 < 2 ^ 53" "index < 2 ^ 53" "total' < 2 ^ 53" "P2 < 2 ^ 53"
    using small P2le by simp_all
  have a1: "fadd (of_nat index) 1 = of_nat (index + 1)"
    using fadd_nat [of index 1, OF i53(1)] by (simp only: of_nat_1)
  have a2: "(of_int \<lfloor>Math_log2 R (of_nat (index + 1))\<rfloor> :: rat) = of_nat L"
    by (simp only: lev of_int_of_nat_eq)
  have a3: "Math_pow R 2 (of_nat L) = of_nat P2"
    by (simp only: pow P2_def of_nat_power of_nat_numeral)
  have a4: "fsub (of_nat P2) 1 = of_nat (P2 - 1)"
  proof -
    from P2pos have "1 \<le> P2" by simp
    from fsub_nat [OF this i53(4)] show ?thesis by (simp only: of_nat_1)
  qed
  have a5: "fsub (of_nat index) (of_nat (P2 - 1)) = of_nat p"
  proof -
    from P2le have "P2 - 1 \<le> index" by simp
    from fsub_nat [OF this i53(2)]
    have "fsub (of_nat index) (of_nat (P2 - 1)) = of_nat (index - (P2 - 1))" .
    moreover from P2pos P2le have "index - (P2 - 1) = p" by (simp add: p_def)
    ultimately show ?thesis by (simp only:)
  qed
  have a6: "fsub (of_nat total') (of_nat (P2 - 1)) = of_nat (total' + 1 - P2)"
  proof -
    from P2le range have "P2 - 1 \<le> total'" by simp
    from fsub_nat [OF this i53(3)]
    have "fsub (of_nat total') (of_nat (P2 - 1)) = of_nat (total' - (P2 - 1))" .
    moreover from P2pos P2le range have "total' - (P2 - 1) = total' + 1 - P2" by simp
    ultimately show ?thesis by (simp only:)
  qed
  have a7: "min (of_nat P2) (of_nat (total' + 1 - P2) :: rat) = of_nat n"
    by (simp only: n_def of_nat_min)
  have nle: "n \<le> P2" by (simp add: n_def)
  have ple: "p \<le> index" using P2pos by (simp add: p_def)
  have a8: "fmul 140 (of_nat P2) = of_nat (140 * P2)"
  proof -
    from P2le small big have "140 * P2 < 2 ^ 53" by simp
    from fmul_nat [OF this] show ?thesis by (simp only: of_nat_numeral)
  qed
  have a9: "fadd (of_nat n) 1 = of_nat (n + 1)"
  proof -
    from nle P2le small have "n + 1 < 2 ^ 53" by simp
    from fadd_nat [OF this] show ?thesis by (simp only: of_nat_1)
  qed
  have a10: "fadd (of_nat p) 1 = of_nat (p + 1)"
  proof -
    from ple small have "p + 1 < 2 ^ 53" by simp
    from fadd_nat [OF this] show ?thesis by (simp only: of_nat_1)
  qed
  have a11: "fdiv (of_nat (140 * P2)) 2 = of_nat (140 * P2) / 2"
  proof -
    from P2le small big have "140 * P2 < 2 ^ 53" by simp
    then show ?thesis by (rule fdiv_nat_2)
  qed
  have a12: "fdiv (of_nat n) 2 = of_nat n / 2"
  proof -
    from nle P2le small have "n < 2 ^ 53" by simp
    then show ?thesis by (rule fdiv_nat_2)
  qed
  have a13: "((of_nat n :: rat) / 2 \<le> of_nat p) = (n \<le> 2 * p)"
  proof -
    have "((of_nat n :: rat) / 2 \<le> of_nat p) = ((of_nat n :: rat) \<le> of_nat p * 2)"
      by (rule pos_divide_le_eq) simp
    also have "of_nat p * 2 = (of_nat (2 * p) :: rat)" by simp
    finally show ?thesis by (simp only: of_nat_le_iff)
  qed
  have a14: "((0::rat) < of_nat L) = (L \<noteq> 0)" by simp
  have a15: "fadd (fmul (of_nat L) 100) 50 = of_nat (L * 100 + 50)"
  proof -
    from L32 have l1: "L * 100 < 2 ^ 53" and l2: "L * 100 + 50 < 2 ^ 53" by simp_all
    from fmul_nat [OF l1] have "fmul (of_nat L) 100 = of_nat (L * 100)"
      by (simp only: of_nat_numeral)
    moreover from fadd_nat [OF l2] have "fadd (of_nat (L * 100)) 50 = of_nat (L * 100 + 50)"
      by (simp only: of_nat_numeral)
    ultimately show ?thesis by (simp only:)
  qed
  show ?thesis
    unfolding calculateNodePosition_def Let_def a1 a2 a3 a4 a5 a6 a7 a8 a9 a10 a11 a12 a13 a14 a15
    unfolding fsub_def fmul_def fdiv_def fadd_def P2_def [symmetric] p_def [symmetric] n_def [symmetric]
    by (simp add: P2_def p_def n_def)
qed

lemma calculateNodePosition_first_y:
  assumes "Math_log2 R 1 = 0"
  shows "snd (calculateNodePosition R 0 N) = 50"
proof -
  have one: "fadd 0 1 = 1"
    using fadd_nat [of 0 1] by simp
  have zero: "fmul 0 100 = 0" by (simp add: fmul_def round_double_def)
  have fifty: "fadd 0 50 = 50"
    using fadd_nat [of 0 50] by simp
  show ?thesis
    by (simp add: calculateNodePosition_def Let_def one assms zero fifty)
qed

text \<open>
  C4. The layout function is a function of its arguments and of the engine's \<open>Math.log2\<close>
  and \<open>Math.pow\<close> alone. For \<open>index < total < 2^32\<close>, on an engine whose \<open>Math.log2\<close> has
  the floor of the logarithm at \<open>index + 1\<close> and whose \<open>Math.pow(2, level)\<close> is exact, with
  \<open>level = floor(log2(index + 1))\<close>, \<open>positionInLevel = index - (2^level - 1)\<close>,
  \<open>nodesInLevel = min(2^level, total - (2^level - 1))\<close> and \<open>baseWidth = 140 * 2^level\<close>:
  \<open>y = level * 100 + 50\<close> exactly, and \<open>x\<close> is the expression
  \<open>(positionInLevel + 1) * (baseWidth / (nodesInLevel + 1)) - baseWidth / 2\<close>, plus for
  \<open>level > 0\<close> the bias \<open>50 * Math.pow(1.5, level)\<close> or \<open>-50 * Math.pow(1.5, level)\<close> (the first
  when \<open>positionInLevel >= nodesInLevel / 2\<close>), evaluated in double arithmetic: the
  division, the product, the difference, the bias and the final sum are each rounded to
  the nearest double. Whenever \<open>Math.log2(1) = 0\<close>, as ECMAScript prescribes,
  \<open>position(0, N)\<close> has \<open>y = 50\<close>.
\<close>

theorem calculateNodePosition_layout:
  fixes R :: runtime and index total' N :: nat
  defines "level \<equiv> nat \<lfloor>log 2 (real (index + 1))\<rfloor>"
  defines "positionInLevel \<equiv> index + 1 - 2 ^ level"
  defines "nodesInLevel \<equiv> min (2 ^ level) (total' + 1 - 2 ^ level)"
  defines "baseWidth \<equiv> 140 * 2 ^ level"
  defines "x \<equiv> round_double
                  (round_double (of_nat (positionInLevel + 1)
                       * round_double (of_nat baseWidth / of_nat (nodesInLevel + 1)))
                   - of_nat baseWidth / 2)"
  shows "(index < total' \<and> total' < 2 ^ 32
          \<and> \<lfloor>Math_log2 R (of_nat (index + 1))\<rfloor> = \<lfloor>log 2 (real (index + 1))\<rfloor>
          \<and> Math_pow R 2 (of_nat level) = 2 ^ level
          \<longrightarrow> calculateNodePosition R index total' =
                (if level = 0 then x
                 else round_double
                        (x + round_double
                               ((if nodesInLevel \<le> 2 * positionInLevel then 50 else - 50)
                                  * Math_pow R (3 / 2) (of_nat level))),
                 of_nat (level * 100 + 50)))
       \<and> (Math_log2 R 1 = 0 \<longrightarrow> snd (calculateNodePosition R 0 N) = 50)"
proof (intro conjI impI)
  assume h: "index < total' \<and> total' < 2 ^ 32
          \<and> \<lfloor>Math_log2 R (of_nat (index + 1))\<rfloor> = \<lfloor>log 2 (real (index + 1))\<rfloor>
          \<and> Math_pow R 2 (of_nat level) = 2 ^ level"
  have "0 \<le> log 2 (real (index + 1))" by simp
  then have lev: "\<lfloor>log 2 (real (index + 1))\<rfloor> = int level"
    by (simp add: level_def)
  then have "2 ^ level \<le> index + 1 \<and> index + 1 < 2 ^ (level + 1)"
    using floor_log_nat_eq_powr_iff [of 2 "index + 1" level] by simp
  then have lo: "2 ^ level \<le> index + 1" by simp
  from h lev have l: "\<lfloor>Math_log2 R (of_nat (index + 1))\<rfloor> = int level" by simp
  from h have r: "index < total'" "total' < 2 ^ 32"
    and p: "Math_pow R 2 (of_nat level) = 2 ^ level" by simp_all
  from calculateNodePosition_at_level [OF l lo r p]
  show "calculateNodePosition R index total' =
                (if level = 0 then x
                 else round_double
                        (x + round_double
                               ((if nodesInLevel \<le> 2 * positionInLevel then 50 else - 50)
                                  * Math_pow R (3 / 2) (of_nat level))),
                 of_nat (level * 100 + 50))"
    by (simp only: Let_def x_def baseWidth_def nodesInLevel_def positionInLevel_def)
next
  assume "Math_log2 R 1 = 0"
  then show "snd (calculateNodePosition R 0 N) = 50"
    by (rule calculateNodePosition_first_y)
qed

theorem calculateNodePosition_layout_witness:
  "(2::nat) < 7 \<and> (7::nat) < 2 ^ 32
   \<and> \<lfloor>Math_log2 example_runtime (of_nat (2 + 1))\<rfloor> = \<lfloor>log 2 (real (2 + 1))\<rfloor>
   \<and> Math_pow example_runtime 2 (of_nat (nat \<lfloor>log 2 (real (2 + 1))\<rfloor>))
        = 2 ^ nat \<lfloor>log 2 (real (2 + 1))\<rfloor>
   \<and> Math_log2 example_runtime 1 = 0
   \<and> calculateNodePosition example_runtime 2 7 = (4280765270807893 / 35184372088832, 150)
   \<and> snd (calculateNodePosition example_runtime 0 7) = 50"
proof -
  have lg: "\<lfloor>log 2 (real (2 + 1))\<rfloor> = 1"
    using floor_log_nat_eq_if [of 2 1 "2 + 1"] by simp
  have h1: "\<lfloor>Math_log2 example_runtime (of_nat (2 + 1))\<rfloor> = \<lfloor>log 2 (real (2 + 1))\<rfloor>"
    unfolding lg by code_simp
  have h2: "Math_pow example_runtime 2 (of_nat (nat \<lfloor>log 2 (real (2 + 1))\<rfloor>))
        = 2 ^ nat \<lfloor>log 2 (real (2 + 1))\<rfloor>"
    unfolding lg by code_simp
  have h3: "Math_log2 example_runtime 1 = 0"
    by code_simp
  have sf: "Math_pow example_runtime (3 / 2) 1 = 3 / 2"
    by code_simp
  have r1: "round_double (280 / 3) = 6567749456581973 / 70368744177664"
    by code_simp
  have r2: "round_double (6567749456581973 / 35184372088832) = 6567749456581973 / 35184372088832"
    by code_simp
  have r3: "round_double (1641937364145493 / 35184372088832) = 1641937364145493 / 35184372088832"
    by code_simp
  have r4: "round_double 75 = 75"
    by code_simp
  have r5: "round_double (4280765270807893 / 35184372088832) = 4280765270807893 / 35184372088832"
    by code_simp
  note inst = calculateNodePosition_layout [of 2 7 example_runtime 7, unfolded lg]
  from inst h1 [unfolded lg] h2 [unfolded lg]
  have "calculateNodePosition example_runtime 2 7 = (4280765270807893 / 35184372088832, 150)"
    by (simp add: sf r1 r2 r3 r4 r5)
  moreover from inst h3 have "snd (calculateNodePosition example_runtime 0 7) = 50"
    by blast
  ultimately show ?thesis using h1 h2 h3 by simp
qed

text \<open>
  Read over the exact numbers, the equation for \<open>x\<close> does not hold of the code: at
  \<open>index = 1\<close>, \<open>total = 3\<close> (level 1, position 0 of 2 nodes, base width 280) it gives
  \<open>280 / 3 - 140 - 75 = -365 / 3\<close>, which is no double; the code returns the double
  \<open>-121.66666666666667\<close>.
\<close>

theorem calculateNodePosition_x_is_rounded:
  "Math_log2 example_runtime 2 = 1
   \<and> Math_pow example_runtime 2 1 = 2
   \<and> Math_pow example_runtime (3 / 2) 1 = 3 / 2
   \<and> calculateNodePosition example_runtime 1 3 = (- (8561530541615787 / 70368744177664), 150)
   \<and> fst (calculateNodePosition example_runtime 1 3)
        \<noteq> (0 + 1) * (140 * 2 ^ 1) / (2 + 1) - (140 * 2 ^ 1) / 2 - 50 * (3 / 2) ^ 1"
proof -
  have a: "Math_log2 example_runtime 2 = 1" by code_simp
  have b: "Math_pow example_runtime 2 1 = 2" by code_simp
  have c: "Math_pow example_runtime (3 / 2) 1 = 3 / 2" by code_simp
  have d: "calculateNodePosition example_runtime 1 3 = (- (8561530541615787 / 70368744177664), 150)"
    by code_simp
  have e: "fst (calculateNodePosition example_runtime 1 3)
        \<noteq> (0 + 1) * (140 * 2 ^ 1) / (2 + 1) - (140 * 2 ^ 1) / 2 - 50 * (3 / 2) ^ 1"
    unfolding d by simp
  from a b c d e show ?thesis by (intro conjI)
qed

section \<open>Properties of response repair\<close>

lemma length_mapNodes: "length (mapNodes R roadmap index xs) = length xs"
  by (induction xs arbitrary: index) auto

lemma nth_mapNodes:
  "i < length xs \<Longrightarrow> mapNodes R roadmap index xs ! i = processNode R roadmap (index + i) (xs ! i)"
proof (induction xs arbitrary: index i)
  case Nil
  then show ?case by simp
next
  case (Cons x xs)
  then show ?case by (cases i) auto
qed

lemma mapNodes_map:
  "mapNodes R roadmap index xs = map (\<lambda>i. processNode R roadmap (index + i) (xs ! i)) [0..<length xs]"
  by (rule nth_equalityI) (simp_all add: length_mapNodes nth_mapNodes)

lemma length_restamp: "length (restamp index ns) = length ns"
  by (induction ns arbitrary: index) auto

lemma nth_restamp:
  "i < length ns \<Longrightarrow>
     restamp index ns ! i =
       (ns ! i)\<lparr>sequence := of_nat (index + i + 1),
                title := decimal (index + i + 1) @ ''. '' @ stripNumericPrefix (title (ns ! i))\<rparr>"
proof (induction ns arbitrary: index i)
  case Nil
  then show ?case by simp
next
  case (Cons n ns)
  then show ?case by (cases i) auto
qed

lemma restamp_forget:
  "map (\<lambda>n. n\<lparr>sequence := 0, title := []\<rparr>) (restamp index ns)
     = map (\<lambda>n. n\<lparr>sequence := 0, title := []\<rparr>) ns"
  by (induction ns arbitrary: index) auto

lemma nodesOf_Inr:
  "nodesOf v = Inr roadmap \<longleftrightarrow> property v ''nodes'' = Some (JArray roadmap) \<and> roadmap \<noteq> []"
  by (cases v) (auto simp: nodesOf_def split: option.splits json.splits)

lemma repair_accepts:
  assumes "parseResponse R text = Inr parsedResponse"
    and "property parsedResponse ''nodes'' = Some (JArray roadmap)"
    and "roadmap \<noteq> []"
  shows "repair R text = Inr (repairNodes R roadmap)"
proof -
  from assms(2,3) have "nodesOf parsedResponse = Inr roadmap"
    by (simp add: nodesOf_Inr)
  with assms(1) show ?thesis by (simp add: repair_def)
qed

lemma length_repairNodes: "length (repairNodes R roadmap) = length roadmap"
  by (simp add: repairNodes_def length_restamp length_mapNodes)

lemma map_sequence_restamp:
  "map sequence (restamp index ns) = map of_nat [Suc index..<Suc (index + length ns)]"
proof (induction ns arbitrary: index)
  case Nil
  then show ?case by simp
next
  case (Cons n ns)
  have "[Suc index..<Suc (index + length (n # ns))]
          = Suc index # [Suc (Suc index)..<Suc (Suc index + length ns)]"
    by (simp add: upt_conv_Cons del: upt_Suc)
  with Cons show ?case by simp
qed

lemma title_restamp:
  "i < length ns \<Longrightarrow>
     title (restamp index ns ! i)
       = decimal (index + i + 1) @ ''. '' @ stripNumericPrefix (title (ns ! i))"
  by (simp add: nth_restamp)

text \<open>
  C1. When the text (or its brace span) parses to a value with a non-empty \<open>nodes\<close> array
  of length \<open>N\<close>, Repair returns \<open>N\<close> nodes whose \<open>sequence\<close> values are \<open>1, 2, ..., N\<close> in
  this order, and the title of the node at position \<open>i\<close> (from 0) begins with the decimal
  numeral of \<open>i + 1\<close>, a full stop and a space, whatever the raw \<open>sequence\<close> values were.
\<close>

theorem repair_sequence_contiguous:
  assumes "parseResponse R text = Inr parsedResponse"
    and "property parsedResponse ''nodes'' = Some (JArray roadmap)"
    and "roadmap \<noteq> []"
  shows "\<exists>nodes. repair R text = Inr nodes \<and> length nodes = length roadmap
           \<and> map sequence nodes = map of_nat [1..<Suc (length roadmap)]
           \<and> (\<forall>i<length nodes. prefix (decimal (Suc i) @ ''. '') (title (nodes ! i)))"
proof -
  let ?nodes = "repairNodes R roadmap"
  let ?sorted = "sort_key sequence (mapNodes R roadmap 0 roadmap)"
  have len: "length ?sorted = length roadmap"
    by (simp add: length_mapNodes)
  have seq: "map sequence ?nodes = map of_nat [1..<Suc (length roadmap)]"
    unfolding repairNodes_def map_sequence_restamp len by simp
  have ttl: "\<forall>i<length ?nodes. prefix (decimal (Suc i) @ ''. '') (title (?nodes ! i))"
  proof (intro allI impI)
    fix i assume "i < length ?nodes"
    then have "i < length ?sorted"
      by (simp add: length_repairNodes length_mapNodes)
    then have "title (restamp 0 ?sorted ! i)
        = decimal (0 + i + 1) @ ''. '' @ stripNumericPrefix (title (?sorted ! i))"
      by (rule title_restamp)
    then show "prefix (decimal (Suc i) @ ''. '') (title (?nodes ! i))"
      by (simp add: repairNodes_def)
  qed
  from repair_accepts [OF assms] seq ttl length_repairNodes [of R roadmap]
  show ?thesis by blast
qed

lemma prose_parse:
  "parseResponse example_runtime prose_text = Inr (JObject [(''nodes'', JArray prose_nodes)])"
  by (simp add: parseResponse_def example_runtime_def example_parse_def example_documents_def
      prose_text_def prose_json_def single_node_text_def dangling_text_def braceSpan_def)

theorem repair_sequence_contiguous_witness:
  "parseResponse example_runtime prose_text = Inr (JObject [(''nodes'', JArray prose_nodes)])
   \<and> property (JObject [(''nodes'', JArray prose_nodes)]) ''nodes'' = Some (JArray prose_nodes)
   \<and> prose_nodes \<noteq> []
   \<and> (\<exists>nodes. repair example_runtime prose_text = Inr nodes \<and> length nodes = 3
         \<and> map sequence nodes = [1, 2, 3]
         \<and> prefix ''1. '' (title (nodes ! 0)) \<and> prefix ''2. '' (title (nodes ! 1))
         \<and> prefix ''3. '' (title (nodes ! 2)))"
proof -
  have p: "property (JObject [(''nodes'', JArray prose_nodes)]) ''nodes'' = Some (JArray prose_nodes)"
    by simp
  have n: "prose_nodes \<noteq> []"
    by (simp add: prose_nodes_def)
  have l: "length prose_nodes = 3"
    by (simp add: prose_nodes_def)
  from repair_sequence_contiguous [OF prose_parse p n]
  obtain nodes where r: "repair example_runtime prose_text = Inr nodes"
    and len: "length nodes = 3"
    and seq: "map sequence nodes = map of_nat [1..<Suc 3]"
    and ttl: "\<forall>i<length nodes. prefix (decimal (Suc i) @ ''. '') (title (nodes ! i))"
    unfolding l by blast
  from seq have "map sequence nodes = [1, 2, 3]"
    by (simp add: upt_rec)
  moreover from ttl [rule_format, of 0] ttl [rule_format, of 1] ttl [rule_format, of 2] len
  have "prefix ''1. '' (title (nodes ! 0))" "prefix ''2. '' (title (nodes ! 1))"
    "prefix ''3. '' (title (nodes ! 2))"
    by (simp_all add: decimal.simps)
  ultimately show ?thesis using prose_parse p n r len
    by - (intro conjI exI [of _ nodes]; assumption)
qed

lemma tryProcessNode_fields:
  assumes "tryProcessNode R roadmap index node = Inr n"
  shows "description n \<noteq> [] \<and> \<not> completed n \<and> timeConsumed n = 0"
  using assms unfolding tryProcessNode_def Let_def
  by (auto split: if_splits json.splits sum.splits)

lemma processNode_fields:
  "description (processNode R roadmap index node) \<noteq> []
   \<and> \<not> completed (processNode R roadmap index node)
   \<and> timeConsumed (processNode R roadmap index node) = 0"
proof (cases "tryProcessNode R roadmap index node")
  case (Inl e)
  then show ?thesis by (simp add: processNode_def defaultNode_def)
next
  case (Inr n)
  with tryProcessNode_fields [OF Inr] show ?thesis by (simp add: processNode_def)
qed

lemma set_mapNodes:
  "n \<in> set (mapNodes R roadmap index xs) \<Longrightarrow> \<exists>i node. n = processNode R roadmap i node"
  by (induction xs arbitrary: index) auto

lemma set_restamp:
  "n \<in> set (restamp index ns) \<Longrightarrow>
     \<exists>m \<in> set ns. description n = description m \<and> completed n = completed m
        \<and> timeConsumed n = timeConsumed m"
  by (induction ns arbitrary: index) auto

lemma repairNodes_fields:
  assumes "n \<in> set (repairNodes R roadmap)"
  shows "description n \<noteq> [] \<and> \<not> completed n \<and> timeConsumed n = 0"
proof -
  from assms obtain m where m: "m \<in> set (sort_key sequence (mapNodes R roadmap 0 roadmap))"
    and eq: "description n = description m" "completed n = completed m"
      "timeConsumed n = timeConsumed m"
    unfolding repairNodes_def by (blast dest: set_restamp)
  from m have "m \<in> set (mapNodes R roadmap 0 roadmap)" by simp
  then obtain i node where "m = processNode R roadmap i node"
    by (blast dest: set_mapNodes)
  with processNode_fields [of R roadmap i node] eq show ?thesis by simp
qed

lemma single_node_repair:
  "repairNodes R [JObject [(''id'', JString ''node_1'')]] =
      [\<lparr>node_id = JString ''node_1'', title = ''1. Untitled Node'',
        description = [JString ''No description available''], children = [],
        sequence = 1, timeNeeded = 0, completed = False, timeConsumed = 0,
        position = calculateNodePosition R 0 1\<rparr>]"
  by (simp add: repairNodes_def processNode_def tryProcessNode_def or_else_def
      hasNumericPrefix_def stripNumericPrefix_def isDigit_def isWhiteSpace_def decimal.simps)

text \<open>
  C8. Whatever the raw elements are, every node of the repaired list has a non-empty
  description, \<open>completed = false\<close> and \<open>timeConsumed = 0\<close>. In particular, when
  \<open>JSON.parse\<close> reads \<open>{"nodes":[{"id":"node_1"}]}\<close> as the object it denotes, Repair returns
  exactly one node: \<open>sequence\<close> 1, title \<open>1. Untitled Node\<close>, the placeholder description
  and no children.
\<close>

theorem repair_node_fields:
  "(\<forall>n \<in> set (repairNodes R roadmap).
       description n \<noteq> [] \<and> \<not> completed n \<and> timeConsumed n = 0)
   \<and> (JSON_parse R single_node_text = Inr single_node_value \<longrightarrow>
        repair R single_node_text =
          Inr [\<lparr>node_id = JString ''node_1'', title = ''1. Untitled Node'',
                description = [JString ''No description available''], children = [],
                sequence = 1, timeNeeded = 0, completed = False, timeConsumed = 0,
                position = calculateNodePosition R 0 1\<rparr>])"
proof -
  have general: "\<forall>n \<in> set (repairNodes R roadmap).
       description n \<noteq> [] \<and> \<not> completed n \<and> timeConsumed n = 0"
    by (blast dest: repairNodes_fields)
  have particular: "repair R single_node_text =
          Inr [\<lparr>node_id = JString ''node_1'', title = ''1. Untitled Node'',
                description = [JString ''No description available''], children = [],
                sequence = 1, timeNeeded = 0, completed = False, timeConsumed = 0,
                position = calculateNodePosition R 0 1\<rparr>]"
    if parsed: "JSON_parse R single_node_text = Inr single_node_value"
  proof -
    from parsed have "parseResponse R single_node_text = Inr single_node_value"
      by (simp add: parseResponse_def)
    moreover have "property single_node_value ''nodes''
        = Some (JArray [JObject [(''id'', JString ''node_1'')]])"
      by (simp add: single_node_value_def)
    ultimately have "repair R single_node_text
        = Inr (repairNodes R [JObject [(''id'', JString ''node_1'')]])"
      by (rule repair_accepts) simp
    then show ?thesis
      by (simp only: single_node_repair)
  qed
  from general particular show ?thesis by blast
qed

theorem repair_node_fields_witness:
  "JSON_parse example_runtime single_node_text = Inr single_node_value
   \<and> repair example_runtime single_node_text =
          Inr [\<lparr>node_id = JString ''node_1'', title = ''1. Untitled Node'',
                description = [JString ''No description available''], children = [],
                sequence = 1, timeNeeded = 0, completed = False, timeConsumed = 0,
                position = (0, 50)\<rparr>]
   \<and> description (hd (repairNodes example_runtime dangling_nodes)) \<noteq> []
   \<and> \<not> completed (hd (repairNodes example_runtime dangling_nodes))
   \<and> timeConsumed (hd (repairNodes example_runtime dangling_nodes)) = 0"
proof -
  have h: "JSON_parse example_runtime single_node_text = Inr single_node_value"
    by (simp add: example_runtime_def example_parse_def example_documents_def)
  have pos: "calculateNodePosition example_runtime 0 1 = (0, 50)"
    by code_simp
  have "repairNodes example_runtime dangling_nodes \<noteq> []"
    using length_repairNodes [of example_runtime dangling_nodes]
    by (auto simp: dangling_nodes_def)
  then have d: "hd (repairNodes example_runtime dangling_nodes)
      \<in> set (repairNodes example_runtime dangling_nodes)"
    by (rule hd_in_set)
  note inst = repair_node_fields [of example_runtime dangling_nodes]
  from inst d have g: "description (hd (repairNodes example_runtime dangling_nodes)) \<noteq> []
   \<and> \<not> completed (hd (repairNodes example_runtime dangling_nodes))
   \<and> timeConsumed (hd (repairNodes example_runtime dangling_nodes)) = 0"
    by blast
  from inst h have "repair example_runtime single_node_text =
          Inr [\<lparr>node_id = JString ''node_1'', title = ''1. Untitled Node'',
                description = [JString ''No description available''], children = [],
                sequence = 1, timeNeeded = 0, completed = False, timeConsumed = 0,
                position = calculateNodePosition example_runtime 0 1\<rparr>]"
    by blast
  with pos h g show ?thesis by simp
qed

text \<open>
  C10. When Repair accepts a response whose \<open>nodes\<close> array has \<open>N\<close> elements it returns
  exactly \<open>N\<close> nodes, and these are, up to their order and the re-stamped \<open>sequence\<close> and
  \<open>title\<close>, the results of processing the raw elements \<open>0, ..., N - 1\<close>, one each; where
  the processing of an element throws, its result is the default node of its position.
\<close>

theorem repair_preserves_count:
  assumes "parseResponse R text = Inr parsedResponse"
    and "property parsedResponse ''nodes'' = Some (JArray roadmap)"
    and "roadmap \<noteq> []"
  shows "\<exists>nodes. repair R text = Inr nodes \<and> length nodes = length roadmap
           \<and> mset (map (\<lambda>n. n\<lparr>sequence := 0, title := []\<rparr>) nodes)
               = mset (map (\<lambda>i. (processNode R roadmap i (roadmap ! i))\<lparr>sequence := 0, title := []\<rparr>)
                        [0..<length roadmap])
           \<and> (\<forall>i<length roadmap. \<forall>e. tryProcessNode R roadmap i (roadmap ! i) = Inl e
                 \<longrightarrow> processNode R roadmap i (roadmap ! i) = defaultNode R roadmap i)"
proof -
  let ?forget = "\<lambda>n :: RoadmapNode. n\<lparr>sequence := 0, title := []\<rparr>"
  let ?processed = "mapNodes R roadmap 0 roadmap"
  have "mset (map ?forget (repairNodes R roadmap))
          = mset (map ?forget (sort_key sequence ?processed))"
    by (simp only: repairNodes_def restamp_forget)
  also have "\<dots> = image_mset ?forget (mset (sort_key sequence ?processed))"
    by simp
  also have "\<dots> = image_mset ?forget (mset ?processed)"
    by (simp only: mset_sort)
  also have "\<dots> = mset (map ?forget ?processed)"
    by simp
  also have "?processed = map (\<lambda>i. processNode R roadmap (0 + i) (roadmap ! i)) [0..<length roadmap]"
    by (rule mapNodes_map)
  finally have "mset (map ?forget (repairNodes R roadmap))
      = mset (map (\<lambda>i. ?forget (processNode R roadmap i (roadmap ! i))) [0..<length roadmap])"
    by (simp add: comp_def)
  moreover have "\<forall>i<length roadmap. \<forall>e. tryProcessNode R roadmap i (roadmap ! i) = Inl e
                 \<longrightarrow> processNode R roadmap i (roadmap ! i) = defaultNode R roadmap i"
    by (simp add: processNode_def)
  ultimately show ?thesis
    using repair_accepts [OF assms] length_repairNodes [of R roadmap] by blast
qed

theorem repair_preserves_count_witness:
  "parseResponse example_runtime dangling_text = Inr (JObject [(''nodes'', JArray dangling_nodes)])
   \<and> property (JObject [(''nodes'', JArray dangling_nodes)]) ''nodes'' = Some (JArray dangling_nodes)
   \<and> dangling_nodes \<noteq> []
   \<and> tryProcessNode example_runtime dangling_nodes 0 (dangling_nodes ! 0)
        = Inl (TypeError ''processedNode.title.match is not a function'')
   \<and> processNode example_runtime dangling_nodes 0 (dangling_nodes ! 0)
        = defaultNode example_runtime dangling_nodes 0
   \<and> (\<exists>nodes. repair example_runtime dangling_text = Inr nodes \<and> length nodes = 2)"
proof -
  have h: "parseResponse example_runtime dangling_text
      = Inr (JObject [(''nodes'', JArray dangling_nodes)])"
    by (simp add: parseResponse_def example_runtime_def example_parse_def example_documents_def
      prose_text_def prose_json_def single_node_text_def dangling_text_def braceSpan_def)
  have p: "property (JObject [(''nodes'', JArray dangling_nodes)]) ''nodes''
      = Some (JArray dangling_nodes)"
    by simp
  have n: "dangling_nodes \<noteq> []"
    by (simp add: dangling_nodes_def)
  have l: "length dangling_nodes = 2"
    by (simp add: dangling_nodes_def)
  have t: "tryProcessNode example_runtime dangling_nodes 0 (dangling_nodes ! 0)
        = Inl (TypeError ''processedNode.title.match is not a function'')"
    by (simp add: tryProcessNode_def dangling_nodes_def or_else_def)
  from repair_preserves_count [OF h p n] l t
  have "processNode example_runtime dangling_nodes 0 (dangling_nodes ! 0)
        = defaultNode example_runtime dangling_nodes 0"
    and "\<exists>nodes. repair example_runtime dangling_text = Inr nodes \<and> length nodes = 2"
    by auto
  with h p n t show ?thesis by blast
qed

lemma nodesOf_cases:
  "nodesOf v =
     (case property v ''nodes'' of
        Some (JArray roadmap) \<Rightarrow>
          if roadmap = [] then Inl (Error ''Received empty nodes array from AI service'')
          else Inr roadmap
      | _ \<Rightarrow> Inl (Error ''Invalid response format: missing nodes array''))"
  by (cases v) (auto simp: nodesOf_def split: option.splits json.splits)

lemma parseResponse_Inr:
  "parseResponse R text = Inr v \<longleftrightarrow>
     JSON_parse R text = Inr v
     \<or> (\<exists>m s. JSON_parse R text = Inl m \<and> braceSpan text = Some s \<and> JSON_parse R s = Inr v)"
  by (auto simp: parseResponse_def split: sum.splits option.splits)

lemma parseResponse_Inl:
  assumes "\<forall>v. JSON_parse R text \<noteq> Inr v"
    and "\<forall>s v. braceSpan text = Some s \<longrightarrow> JSON_parse R s \<noteq> Inr v"
  shows "\<exists>m. JSON_parse R text = Inl m
           \<and> parseResponse R text = Inl (Error (''Failed to parse JSON response: '' @ m))"
proof -
  from assms(1) obtain m where m: "JSON_parse R text = Inl m"
    by (cases "JSON_parse R text") auto
  show ?thesis
  proof (cases "braceSpan text")
    case None
    with m show ?thesis by (simp add: parseResponse_def)
  next
    case (Some s)
    with assms(2) obtain m' where "JSON_parse R s = Inl m'"
      by (cases "JSON_parse R s") auto
    with m Some show ?thesis by (simp add: parseResponse_def)
  qed
qed

lemma repairNodes_nonempty: "roadmap \<noteq> [] \<Longrightarrow> repairNodes R roadmap \<noteq> []"
  using length_repairNodes [of R roadmap] by auto

text \<open>
  C6. Repair throws in exactly two situations, and returns a non-empty list in every
  other. When neither the whole text nor its brace span parses, it throws the parse
  error, whose message is \<open>Failed to parse JSON response: \<close> followed by the message of
  the first \<open>SyntaxError\<close>. When a value was parsed (the whole text first, else the brace
  span), it throws a format error if the value has no array under \<open>nodes\<close> or an empty
  one, and returns a non-empty list otherwise.
\<close>

theorem repair_terminal_failures:
  "((\<forall>v. JSON_parse R text \<noteq> Inr v)
      \<and> (\<forall>s v. braceSpan text = Some s \<longrightarrow> JSON_parse R s \<noteq> Inr v)
     \<longrightarrow> (\<exists>m. JSON_parse R text = Inl m
            \<and> repair R text = Inl (Error (''Failed to parse JSON response: '' @ m))))
   \<and> (\<forall>v. JSON_parse R text = Inr v
            \<or> (\<exists>m s. JSON_parse R text = Inl m \<and> braceSpan text = Some s
                   \<and> JSON_parse R s = Inr v)
     \<longrightarrow> (case property v ''nodes'' of
            Some (JArray roadmap) \<Rightarrow>
              if roadmap = []
              then repair R text = Inl (Error ''Received empty nodes array from AI service'')
              else (\<exists>nodes. repair R text = Inr nodes \<and> nodes \<noteq> [])
          | _ \<Rightarrow> repair R text = Inl (Error ''Invalid response format: missing nodes array'')))"
proof (intro conjI allI impI)
  assume "(\<forall>v. JSON_parse R text \<noteq> Inr v)
      \<and> (\<forall>s v. braceSpan text = Some s \<longrightarrow> JSON_parse R s \<noteq> Inr v)"
  then obtain m where "JSON_parse R text = Inl m"
    and "parseResponse R text = Inl (Error (''Failed to parse JSON response: '' @ m))"
    using parseResponse_Inl [of R "text"] by blast
  then show "\<exists>m. JSON_parse R text = Inl m
            \<and> repair R text = Inl (Error (''Failed to parse JSON response: '' @ m))"
    by (simp add: repair_def)
next
  fix v
  assume "JSON_parse R text = Inr v
            \<or> (\<exists>m s. JSON_parse R text = Inl m \<and> braceSpan text = Some s
                   \<and> JSON_parse R s = Inr v)"
  then have "parseResponse R text = Inr v"
    by (simp only: parseResponse_Inr)
  then have r: "repair R text = (case nodesOf v of Inl e \<Rightarrow> Inl e
      | Inr roadmap \<Rightarrow> Inr (repairNodes R roadmap))"
    by (simp add: repair_def)
  show "case property v ''nodes'' of
            Some (JArray roadmap) \<Rightarrow>
              if roadmap = []
              then repair R text = Inl (Error ''Received empty nodes array from AI service'')
              else (\<exists>nodes. repair R text = Inr nodes \<and> nodes \<noteq> [])
          | _ \<Rightarrow> repair R text = Inl (Error ''Invalid response format: missing nodes array'')"
    unfolding r nodesOf_cases
    by (auto split: option.splits json.splits simp: repairNodes_nonempty)
qed

theorem repair_terminal_failures_witness:
  "repair example_runtime ''no json here'' = Inl (Error ''Failed to parse JSON response: Unexpected token'')
   \<and> repair example_runtime ''[]'' = Inl (Error ''Invalid response format: missing nodes array'')
   \<and> repair example_runtime ''{\"nodes\":[]}'' = Inl (Error ''Received empty nodes array from AI service'')
   \<and> (\<exists>nodes. repair example_runtime single_node_text = Inr nodes \<and> nodes \<noteq> [])"
proof -
  have docs: "JSON_parse example_runtime ''no json here'' = Inl ''Unexpected token''"
    "JSON_parse example_runtime ''[]'' = Inr (JArray [])"
    "JSON_parse example_runtime ''{\"nodes\":[]}'' = Inr (JObject [(''nodes'', JArray [])])"
    "JSON_parse example_runtime single_node_text = Inr single_node_value"
    by (simp_all add: example_runtime_def example_parse_def example_documents_def
        prose_json_def single_node_text_def dangling_text_def)
  have span: "braceSpan ''no json here'' = None"
    by (simp add: braceSpan_def)
  have props: "property (JArray []) ''nodes'' = None"
    "property (JObject [(''nodes'', JArray [])]) ''nodes'' = Some (JArray [])"
    "property single_node_value ''nodes'' = Some (JArray [JObject [(''id'', JString ''node_1'')]])"
    by (simp_all add: single_node_value_def)
  from repair_terminal_failures [of example_runtime "''no json here''"] docs(1) span
  have a: "repair example_runtime ''no json here''
      = Inl (Error ''Failed to parse JSON response: Unexpected token'')"
    by simp
  from repair_terminal_failures [of example_runtime "''[]''"] docs(2)
  have "case property (JArray []) ''nodes'' of
            Some (JArray roadmap) \<Rightarrow>
              if roadmap = []
              then repair example_runtime ''[]'' = Inl (Error ''Received empty nodes array from AI service'')
              else (\<exists>nodes. repair example_runtime ''[]'' = Inr nodes \<and> nodes \<noteq> [])
          | _ \<Rightarrow> repair example_runtime ''[]'' = Inl (Error ''Invalid response format: missing nodes array'')"
    by blast
  then have b: "repair example_runtime ''[]'' = Inl (Error ''Invalid response format: missing nodes array'')"
    by (simp add: props)
  from repair_terminal_failures [of example_runtime "''{\"nodes\":[]}''"] docs(3)
  have "case property (JObject [(''nodes'', JArray [])]) ''nodes'' of
            Some (JArray roadmap) \<Rightarrow>
              if roadmap = []
              then repair example_runtime ''{\"nodes\":[]}'' = Inl (Error ''Received empty nodes array from AI service'')
              else (\<exists>nodes. repair example_runtime ''{\"nodes\":[]}'' = Inr nodes \<and> nodes \<noteq> [])
          | _ \<Rightarrow> repair example_runtime ''{\"nodes\":[]}'' = Inl (Error ''Invalid response format: missing nodes array'')"
    by blast
  then have c: "repair example_runtime ''{\"nodes\":[]}'' = Inl (Error ''Received empty nodes array from AI service'')"
    by simp
  from repair_terminal_failures [of example_runtime single_node_text] docs(4)
  have "case property single_node_value ''nodes'' of
            Some (JArray roadmap) \<Rightarrow>
              if roadmap = []
              then repair example_runtime single_node_text = Inl (Error ''Received empty nodes array from AI service'')
              else (\<exists>nodes. repair example_runtime single_node_text = Inr nodes \<and> nodes \<noteq> [])
          | _ \<Rightarrow> repair example_runtime single_node_text = Inl (Error ''Invalid response format: missing nodes array'')"
    by blast
  then have d: "\<exists>nodes. repair example_runtime single_node_text = Inr nodes \<and> nodes \<noteq> []"
    by (simp add: props)
  from a b c d show ?thesis by (intro conjI)
qed

subsection \<open>The children filter\<close>

text \<open>
  What the filter does ensure: every child left in a returned node is strictly equal to
  the \<open>id\<close> of some raw element.
\<close>

lemma rawHasId_True:
  "rawHasId roadmap childId = Inr True \<Longrightarrow>
     \<exists>raw \<in> set roadmap. \<exists>v. property raw ''id'' = Some v \<and> strictEquals v childId"
  by (induction roadmap) (auto split: if_splits option.splits)

lemma filterChildren_kept:
  "filterChildren roadmap cs = Inr kept \<Longrightarrow> c \<in> set kept \<Longrightarrow>
     rawHasId roadmap c = Inr True"
proof (induction cs arbitrary: kept)
  case Nil
  then show ?case by simp
next
  case (Cons childId rest)
  then show ?case
    by (auto split: sum.splits if_splits)
qed

lemma tryProcessNode_children:
  assumes "tryProcessNode R roadmap index node = Inr n" and "c \<in> set (children n)"
  shows "rawHasId roadmap c = Inr True"
  using assms unfolding tryProcessNode_def Let_def
  by (auto split: if_splits json.splits sum.splits dest: filterChildren_kept)

lemma processNode_children:
  assumes "c \<in> set (children (processNode R roadmap index node))"
  shows "rawHasId roadmap c = Inr True"
proof (cases "tryProcessNode R roadmap index node")
  case (Inl e)
  with assms show ?thesis by (simp add: processNode_def defaultNode_def)
next
  case (Inr n)
  with assms tryProcessNode_children [OF Inr] show ?thesis by (simp add: processNode_def)
qed

lemma set_restamp_children:
  "n \<in> set (restamp index ns) \<Longrightarrow> \<exists>m \<in> set ns. children n = children m"
  by (induction ns arbitrary: index) auto

lemma repaired_children_are_raw_ids:
  assumes "n \<in> set (repairNodes R roadmap)" and "c \<in> set (children n)"
  shows "\<exists>raw \<in> set roadmap. \<exists>v. property raw ''id'' = Some v \<and> strictEquals v c"
proof -
  from assms(1) obtain m where "m \<in> set (sort_key sequence (mapNodes R roadmap 0 roadmap))"
    and "children n = children m"
    unfolding repairNodes_def by (blast dest: set_restamp_children)
  then obtain i node where "children n = children (processNode R roadmap i node)"
    by (auto dest: set_mapNodes)
  with assms(2) have "rawHasId roadmap c = Inr True"
    by (auto dest: processNode_children)
  then show ?thesis by (rule rawHasId_True)
qed

text \<open>
  C2. The claim asks that every child of a returned node is the \<open>id\<close> of a returned node.
  The filter compares with the raw elements while the returned nodes carry the
  processed ids, and the two differ where an element is replaced by the default node.
  On \<open>{"nodes":[{"id":"intro","title":7},{"id":"next","title":"Next","children":["intro"]}]}\<close>
  the first element throws (its title is a number, which has no \<open>match\<close>) and becomes the
  default node \<open>node_1\<close>; the second keeps its child \<open>intro\<close>, which is the id of no
  returned node.
\<close>

theorem dangling_child_survives_repair:
  "repair example_runtime dangling_text =
     Inr [\<lparr>node_id = JString ''node_1'', title = ''1. Topic 1'',
           description = [JString ''Content to be added''], children = [],
           sequence = 1, timeNeeded = 1, completed = False, timeConsumed = 0,
           position = (0, 50)\<rparr>,
          \<lparr>node_id = JString ''next'', title = ''2. Next'',
           description = [JString ''No description available''],
           children = [JString ''intro''], sequence = 2, timeNeeded = 0,
           completed = False, timeConsumed = 0, position = (- 75, 150)\<rparr>]"
  by code_simp

section \<open>Properties of the fallback generator\<close>

text \<open>
  The number of nodes is 8, 12 or 15 by level, and every \<open>timeNeeded\<close> is one of
  \<open>1, ..., 5\<close> when the draws are doubles in \<open>[0, 1)\<close>, the largest of which is
  \<open>1 - 2^-53\<close>. The product with 5 is rounded before the floor is taken: for the double
  nearest to \<open>0.6\<close> it is \<open>3\<close>, not \<open>2.999...\<close>, and \<open>timeNeeded\<close> is 4.
\<close>

lemma length_createFallbackNodes:
  "length (createFallbackNodes R prompt (level_name level))
     = (case level of Beginner \<Rightarrow> 8 | Intermediate \<Rightarrow> 12 | Advanced \<Rightarrow> 15)"
  by (cases level) (simp_all add: createFallbackNodes_def nodeCountOf_def)

lemma timeNeeded_createFallbackNodes:
  assumes "\<And>k. 0 \<le> Math_random R k \<and> Math_random R k \<le> 1 - 1 / 2 ^ 53"
    and "n \<in> set (createFallbackNodes R prompt level)"
  shows "timeNeeded n \<in> {1, 2, 3, 4, 5}"
proof -
  from assms(2) obtain i where n: "n = fallbackNode R prompt (nodeCountOf level) i"
    by (auto simp: createFallbackNodes_def Let_def)
  define k where "k = \<lfloor>fmul (Math_random R i) 5\<rfloor>"
  from assms(1) [of i] have k: "0 \<le> k \<and> k \<le> 4"
    unfolding k_def by (intro round_double_times_5) simp_all
  then have "\<bar>k + 1\<bar> < 2 ^ 53" by simp
  then have "round_double (of_int (k + 1)) = of_int (k + 1)"
    by (rule round_double_int)
  then have "fadd (of_int k) 1 = of_int (k + 1)"
    by (simp add: fadd_def)
  with n have "timeNeeded n = of_int (k + 1)"
    by (simp add: fallbackNode_def k_def)
  moreover from k have "k + 1 \<in> {1, 2, 3, 4, 5}" by auto
  ultimately show ?thesis by auto
qed

lemma timeNeeded_at_0_6:
  "fadd (of_int \<lfloor>fmul (round_double (6 / 10)) 5\<rfloor>) 1 = 4"
  by code_simp

text \<open>
  C3. The claim asks that the children of each node are the next two nodes, clipped at
  the end of the array. The filter compares the number behind \<open>node_\<close> with the node
  count as strings, so with 12 nodes \<open>"2" <= "12"\<close> is false and the nodes 1 to 7 get no
  child at all; and the guard \<open>i < nodeCount - 2\<close> leaves the last but one node without
  its one remaining successor, also with 8 nodes.
\<close>

theorem fallback_children_miss_next_two:
  "map children (createFallbackNodes R ''Python'' ''intermediate'') =
     [[], [], [], [], [], [], [], [JString ''node_10''],
      [JString ''node_10'', JString ''node_11''],
      [JString ''node_11'', JString ''node_12''], [], []]
   \<and> map children (createFallbackNodes R ''Python'' ''beginner'') =
     [[JString ''node_2'', JString ''node_3''], [JString ''node_3'', JString ''node_4''],
      [JString ''node_4'', JString ''node_5''], [JString ''node_5'', JString ''node_6''],
      [JString ''node_6'', JString ''node_7''], [JString ''node_7'', JString ''node_8''],
      [], []]"
  by code_simp

section \<open>Properties of the roadmap generator\<close>

lemma validatePrompt_error:
  assumes "validatePrompt prompt = Inl error"
  shows "\<exists>m. error = Error m \<and> m \<noteq> []"
  using assms unfolding validatePrompt_def Let_def
  by (auto split: if_splits option.splits)

lemma handleError_plain:
  "m \<noteq> [] \<Longrightarrow> handleError R e prompt level (Error m) = Inl (Error m)"
  by (simp add: handleError_def)

text \<open>
  C7. When the validator rejects the prompt, \<open>generateRoadmap\<close> sends no request to the
  service and rejects with the validation error.
\<close>

theorem invalid_prompt_makes_no_call:
  assumes "validatePrompt prompt = Inl error"
  shows "generateRoadmap R e svc prompt level roadmapType = ([], Inl error)"
proof -
  from validatePrompt_error [OF assms] obtain m where m: "error = Error m" "m \<noteq> []"
    by blast
  with assms show ?thesis
    by (simp add: generateRoadmap_def handleError_plain)
qed

theorem invalid_prompt_makes_no_call_witness:
  "validatePrompt ''hi'' = Inl (Error ''Please enter a longer topic description.'')
   \<and> generateRoadmap example_runtime \<lparr>GROQ_API_KEY = Some ''key'', NODE_ENV = None\<rparr>
        (\<lambda>req. Inr JNull) ''hi'' Beginner TopicWise
      = ([], Inl (Error ''Please enter a longer topic description.''))"
proof -
  have h: "validatePrompt ''hi'' = Inl (Error ''Please enter a longer topic description.'')"
    by code_simp
  from invalid_prompt_makes_no_call [OF h] h show ?thesis by simp
qed

text \<open>
  C9. When the request is sent (the prompt is valid and the key is configured) and the
  service answers with status 429, \<open>generateRoadmap\<close> rejects with the rate-limit
  message, whatever the message of the rejection was; with status 401 it rejects with
  \<open>Authentication failed\<close>.
\<close>

theorem service_status_messages:
  assumes "validatePrompt prompt = Inr valid"
    and "GROQ_API_KEY e = Some key" and "key \<noteq> []"
    and "svc \<lparr>authorization = ''Bearer '' @ key, topic = prompt, topic_level = level\<rparr> = Inl error"
  shows "(response_status error = Some 429 \<longrightarrow>
            snd (generateRoadmap R e svc prompt level roadmapType)
              = Inl (Error ''Too many requests. Please try again later.''))
       \<and> (response_status error = Some 401 \<longrightarrow>
            snd (generateRoadmap R e svc prompt level roadmapType)
              = Inl (Error ''Authentication failed''))"
  using assms by (simp add: generateRoadmap_def handleError_def Let_def)

theorem service_status_messages_witness:
  "validatePrompt ''Python'' = Inr True
   \<and> snd (generateRoadmap example_runtime \<lparr>GROQ_API_KEY = Some ''key'', NODE_ENV = Some ''production''\<rparr>
        (\<lambda>req. Inl (AxiosError ''Request failed with status code 429'' (Some 429)))
        ''Python'' Beginner TopicWise)
      = Inl (Error ''Too many requests. Please try again later.'')
   \<and> snd (generateRoadmap example_runtime \<lparr>GROQ_API_KEY = Some ''key'', NODE_ENV = Some ''production''\<rparr>
        (\<lambda>req. Inl (AxiosError ''Request failed with status code 401'' (Some 401)))
        ''Python'' Beginner TopicWise)
      = Inl (Error ''Authentication failed'')"
proof -
  have h: "validatePrompt ''Python'' = Inr True"
    by code_simp
  from service_status_messages [OF h, of "\<lparr>GROQ_API_KEY = Some ''key'', NODE_ENV = Some ''production''\<rparr>" "''key''"
      "\<lambda>req. Inl (AxiosError ''Request failed with status code 429'' (Some 429))"
      Beginner "AxiosError ''Request failed with status code 429'' (Some 429)" example_runtime TopicWise]
    service_status_messages [OF h, of "\<lparr>GROQ_API_KEY = Some ''key'', NODE_ENV = Some ''production''\<rparr>" "''key''"
      "\<lambda>req. Inl (AxiosError ''Request failed with status code 401'' (Some 401))"
      Beginner "AxiosError ''Request failed with status code 401'' (Some 401)" example_runtime TopicWise]
    h
  show ?thesis by simp
qed

end
